theory Spec2Isabelle
  imports Main
begin

section \<open>Signatures and parameters\<close>

text \<open>
  The module \<^verbatim>\<open>warg/kw_passing.py\<close> works on the introspection objects of
  Python's \<^verbatim>\<open>inspect\<close> module. A parameter has a name, a kind and a default;
  the sentinel \<^verbatim>\<open>Parameter.empty\<close> ("no default") is \<open>None\<close> here.
  The kinds are an \<^verbatim>\<open>IntEnum\<close>, compared by value when a signature is built.
\<close>

datatype ParameterKind =
  POSITIONAL_ONLY | POSITIONAL_OR_KEYWORD | VAR_POSITIONAL | KEYWORD_ONLY | VAR_KEYWORD

fun kind_value :: "ParameterKind \<Rightarrow> nat" where
  "kind_value POSITIONAL_ONLY = 0"
| "kind_value POSITIONAL_OR_KEYWORD = 1"
| "kind_value VAR_POSITIONAL = 2"
| "kind_value KEYWORD_ONLY = 3"
| "kind_value VAR_KEYWORD = 4"

datatype pyval = PyNone | PyBool bool | PyInt int | PyStr string

record Parameter =
  name :: string
  kind :: ParameterKind
  default_val :: "pyval option"

record Signature =
  parameters :: "Parameter list"
  return_annotation :: "pyval option"

datatype error = AssertionError | AttributeError | ValueError | TypeError | IndexError

subsection \<open>Dictionaries\<close>

text \<open>
  A Python \<^verbatim>\<open>dict\<close> keeps insertion order: it is a list of items. Storing under a
  key that is present replaces the value where the key stands; a new key goes to the end.
\<close>

type_synonym ('k, 'v) pydict = "('k \<times> 'v) list"

definition dict_contains :: "'k \<Rightarrow> ('k, 'v) pydict \<Rightarrow> bool" where
  "dict_contains k d = (k \<in> set (map fst d))"

definition dict_get :: "('k, 'v) pydict \<Rightarrow> 'k \<Rightarrow> 'v option" where
  "dict_get d k = map_of d k"

fun dict_set :: "'k \<Rightarrow> 'v \<Rightarrow> ('k, 'v) pydict \<Rightarrow> ('k, 'v) pydict" where
  "dict_set k v [] = [(k, v)]"
| "dict_set k v (kv # d) = (if fst kv = k then (k, v) # d else kv # dict_set k v d)"

definition dict_pop :: "'k \<Rightarrow> ('k, 'v) pydict \<Rightarrow> ('k, 'v) pydict" where
  "dict_pop k d = filter (\<lambda>kv. fst kv \<noteq> k) d"

definition dict_update :: "('k, 'v) pydict \<Rightarrow> ('k, 'v) pydict \<Rightarrow> ('k, 'v) pydict" where
  "dict_update d e = fold (\<lambda>kv acc. dict_set (fst kv) (snd kv) acc) e d"

definition dict_of_items :: "('k \<times> 'v) list \<Rightarrow> ('k, 'v) pydict" where
  "dict_of_items kvs = dict_update [] kvs"

definition dict_values :: "('k, 'v) pydict \<Rightarrow> 'v list" where
  "dict_values d = map snd d"

subsection \<open>Building a signature\<close>

text \<open>
  \<^verbatim>\<open>Signature.parameters\<close> is the ordered mapping from each parameter's name to the
  parameter. \<^verbatim>\<open>Signature.replace(parameters=...)\<close> calls the constructor, which walks
  the given parameters and raises \<^verbatim>\<open>ValueError\<close> on a kind that comes after a higher
  kind, on a positional parameter without default after one with default, and on a
  repeated name. Reading \<^verbatim>\<open>param.kind\<close> of \<^verbatim>\<open>None\<close> raises
  \<^verbatim>\<open>AttributeError\<close>. (The loop is that of CPython 3.12's \<^verbatim>\<open>inspect.py\<close>.)
\<close>

definition sig_items :: "Signature \<Rightarrow> (string, Parameter) pydict" where
  "sig_items s = map (\<lambda>p. (name p, p)) (parameters s)"

definition is_positional :: "ParameterKind \<Rightarrow> bool" where
  "is_positional k = (k = POSITIONAL_ONLY \<or> k = POSITIONAL_OR_KEYWORD)"

fun validate_parameters ::
  "ParameterKind \<Rightarrow> bool \<Rightarrow> Parameter list \<Rightarrow> Parameter option list \<Rightarrow> error + Parameter list"
where
  "validate_parameters top_kind seen_default params [] = Inr params"
| "validate_parameters top_kind seen_default params (None # rest) = Inl AttributeError"
| "validate_parameters top_kind seen_default params (Some param # rest) =
     (if kind_value (kind param) < kind_value top_kind then Inl ValueError
      else if is_positional (kind param) \<and> default_val param = None \<and> seen_default
      then Inl ValueError
      else if name param \<in> set (map name params) then Inl ValueError
      else validate_parameters
             (if kind_value top_kind < kind_value (kind param) then kind param else top_kind)
             (seen_default \<or> (is_positional (kind param) \<and> default_val param \<noteq> None))
             (params @ [param]) rest)"

definition Signature_init :: "Parameter option list \<Rightarrow> pyval option \<Rightarrow> error + Signature" where
  "Signature_init ps ann =
     (case validate_parameters POSITIONAL_ONLY False [] ps of
        Inl e \<Rightarrow> Inl e
      | Inr params \<Rightarrow> Inr \<lparr>parameters = params, return_annotation = ann\<rparr>)"

definition Signature_replace :: "Signature \<Rightarrow> Parameter option list \<Rightarrow> error + Signature" where
  "Signature_replace s ps = Signature_init ps (return_annotation s)"

section \<open>Callables, classes and the interpreter state\<close>

text \<open>
  A callable object is known by its reference. It has the signature that introspection
  derives from the callable itself (\<open>None\<close> when \<^verbatim>\<open>inspect.signature\<close> finds none and
  raises \<^verbatim>\<open>ValueError\<close>, as for some builtins), the attribute \<^verbatim>\<open>__signature__\<close>
  when it was set, and its code, which is what a call runs. Only a Python function takes
  new attributes; a builtin or a slot wrapper such as \<^verbatim>\<open>object.__init__\<close> refuses
  them with \<^verbatim>\<open>AttributeError\<close>.

  A class has its linearised ancestors (\<^verbatim>\<open>__mro__\<close> without its first entry, which is
  the class itself) and, when its body defines one, the function \<^verbatim>\<open>__init__\<close>.

  The state also holds the warnings logged so far, each by the receiver it names.
\<close>

datatype callable_type = FunctionType | BuiltinFunctionType | WrapperDescriptorType

record callable_obj =
  ctype :: callable_type
  own_signature :: "Signature option"
  dunder_signature :: "Signature option"
  code :: nat

record class_obj =
  ancestors :: "nat list"
  dict_init :: "nat option"

record py_state =
  callables :: "nat \<Rightarrow> callable_obj option"
  classes :: "nat \<Rightarrow> class_obj option"
  warnings :: "nat list"

text \<open>The values the assertion of \<^verbatim>\<open>passes_kws_to\<close> tests: a tuple or a callable.\<close>

datatype pyobj = Tuple "pyobj list" | Callable nat

fun isinstance_BuiltinFunctionType :: "py_state \<Rightarrow> pyobj \<Rightarrow> bool" where
  "isinstance_BuiltinFunctionType st (Tuple xs) = False"
| "isinstance_BuiltinFunctionType st (Callable r) =
     (case callables st r of None \<Rightarrow> False | Some obj \<Rightarrow> ctype obj = BuiltinFunctionType)"

text \<open>
  \<^verbatim>\<open>inspect.signature(obj)\<close> returns the object stored in \<^verbatim>\<open>__signature__\<close> when
  there is one, and otherwise a fresh signature made from the callable.
\<close>

definition inspect_signature :: "py_state \<Rightarrow> nat \<Rightarrow> error + Signature" where
  "inspect_signature st r =
     (case callables st r of
        None \<Rightarrow> Inl TypeError
      | Some obj \<Rightarrow>
          (case dunder_signature obj of
             Some s \<Rightarrow> Inr s
           | None \<Rightarrow> (case own_signature obj of Some s \<Rightarrow> Inr s | None \<Rightarrow> Inl ValueError)))"

definition set_dunder_signature :: "nat \<Rightarrow> Signature \<Rightarrow> py_state \<Rightarrow> error + py_state" where
  "set_dunder_signature r s st =
     (case callables st r of
        None \<Rightarrow> Inl TypeError
      | Some obj \<Rightarrow>
          if ctype obj = FunctionType
          then Inr (st\<lparr>callables := (callables st)(r \<mapsto> obj\<lparr>dunder_signature := Some s\<rparr>)\<rparr>)
          else Inl AttributeError)"

text \<open>\<^verbatim>\<open>inspect.getmro(cls)\<close> is \<^verbatim>\<open>cls.__mro__\<close>: the class, then its ancestors.\<close>

definition getmro :: "py_state \<Rightarrow> nat \<Rightarrow> error + nat list" where
  "getmro st c =
     (case classes st c of None \<Rightarrow> Inl AttributeError | Some co \<Rightarrow> Inr (c # ancestors co))"

definition first_item :: "'a list \<Rightarrow> error + 'a" where
  "first_item xs = (case xs of [] \<Rightarrow> Inl IndexError | x # _ \<Rightarrow> Inr x)"

text \<open>Attribute lookup of \<^verbatim>\<open>__init__\<close> on a class: the first definition along the MRO.\<close>

fun lookup_init :: "(nat \<Rightarrow> class_obj option) \<Rightarrow> nat list \<Rightarrow> error + nat" where
  "lookup_init cs [] = Inl AttributeError"
| "lookup_init cs (c # rest) =
     (case cs c of
        None \<Rightarrow> Inl AttributeError
      | Some co \<Rightarrow> (case dict_init co of Some f \<Rightarrow> Inr f | None \<Rightarrow> lookup_init cs rest))"

definition getattr_init :: "py_state \<Rightarrow> nat \<Rightarrow> error + nat" where
  "getattr_init st c =
     (case getmro st c of Inl e \<Rightarrow> Inl e | Inr mro \<Rightarrow> lookup_init (classes st) mro)"

section \<open>The module kw_passing\<close>

text \<open>
  \<^verbatim>\<open>to_keyword_only\<close> writes the kind of the parameter object it is given and returns
  that object. Parameters are values here, so the function returns the updated value and
  the caller stores it back where the object is shared (see \<open>eval_sig_kw_params\<close>).
\<close>

definition to_keyword_only :: "Parameter \<Rightarrow> Parameter" where
  "to_keyword_only val =
     (if kind val = POSITIONAL_OR_KEYWORD then val\<lparr>kind := KEYWORD_ONLY\<rparr> else val)"

text \<open>Lines 30 to 34: the key of the last variadic-keyword parameter, or \<^verbatim>\<open>None\<close>.\<close>

definition find_var_kw_key :: "(string, Parameter) pydict \<Rightarrow> string option" where
  "find_var_kw_key passing_params =
     fold (\<lambda>kv var_kw_key. if kind (snd kv) = VAR_KEYWORD then Some (fst kv) else var_kw_key)
       passing_params None"

text \<open>Lines 31, 36 and 37: \<^verbatim>\<open>var_kw\<close>, and the mapping after the pop.\<close>

definition var_kw_of :: "string option \<Rightarrow> (string, Parameter) pydict \<Rightarrow> Parameter option" where
  "var_kw_of var_kw_key passing_params =
     (case var_kw_key of
        None \<Rightarrow> None
      | Some k \<Rightarrow> if dict_contains k passing_params then dict_get passing_params k else None)"

definition pop_var_kw ::
  "string option \<Rightarrow> (string, Parameter) pydict \<Rightarrow> (string, Parameter) pydict" where
  "pop_var_kw var_kw_key passing_params =
     (case var_kw_key of
        None \<Rightarrow> passing_params
      | Some k \<Rightarrow> if dict_contains k passing_params then dict_pop k passing_params
                  else passing_params)"

text \<open>Lines 39 to 43: the filter of the comprehension, and the mapping it builds.\<close>

definition selected :: "(string, Parameter) pydict \<Rightarrow> string \<times> Parameter \<Rightarrow> bool" where
  "selected passing_params kv =
     (default_val (snd kv) \<noteq> None \<and> \<not> dict_contains (fst kv) passing_params)"

definition to_params_of ::
  "(string, Parameter) pydict \<Rightarrow> (string, Parameter) pydict \<Rightarrow> (string, Parameter) pydict" where
  "to_params_of passing_params receiver_params =
     dict_of_items
       (map (\<lambda>kv. (fst kv, to_keyword_only (snd kv)))
          (filter (selected passing_params) receiver_params))"

text \<open>
  The receiver's parameter objects after the comprehension has run: the selected ones
  went through \<^verbatim>\<open>to_keyword_only\<close>, which wrote their kind in place.
\<close>

definition receiver_after ::
  "(string, Parameter) pydict \<Rightarrow> (string, Parameter) pydict \<Rightarrow> (string, Parameter) pydict" where
  "receiver_after passing_params receiver_params =
     map (\<lambda>kv. if selected passing_params kv then (fst kv, to_keyword_only (snd kv)) else kv)
       receiver_params"

text \<open>
  Those objects belong to the receiver's \<^verbatim>\<open>__signature__\<close> when it has one (then
  \<^verbatim>\<open>inspect.signature\<close> returned that very object); otherwise they were made for
  this call and nothing else sees them.
\<close>

definition store_receiver :: "nat \<Rightarrow> (string, Parameter) pydict \<Rightarrow> py_state \<Rightarrow> py_state" where
  "store_receiver r receiver_params st =
     (case callables st r of
        None \<Rightarrow> st
      | Some obj \<Rightarrow>
          (case dunder_signature obj of
             None \<Rightarrow> st
           | Some s \<Rightarrow>
               st\<lparr>callables := (callables st)
                    (r \<mapsto> obj\<lparr>dunder_signature :=
                              Some (s\<lparr>parameters := dict_values receiver_params\<rparr>)\<rparr>)\<rparr>))"

text \<open>Lines 50 to 53: whether the receiver lacks a variadic-keyword parameter.\<close>

definition no_var_kw_of :: "(string, Parameter) pydict \<Rightarrow> bool" where
  "no_var_kw_of receiver_params =
     fold (\<lambda>kv no_var_kw. if kind (snd kv) = VAR_KEYWORD then False else no_var_kw)
       receiver_params True"

definition warning :: "nat \<Rightarrow> py_state \<Rightarrow> py_state" where
  "warning r st = st\<lparr>warnings := warnings st @ [r]\<rparr>"

text \<open>
  \<^verbatim>\<open>eval_sig_kw_params\<close> (lines 24 to 63). From line 47 on a key may be
  \<^verbatim>\<open>None\<close> and so may a value, hence the option types of the returned mapping.
\<close>

definition eval_sig_kw_params ::
  "Signature \<Rightarrow> nat \<Rightarrow> bool \<Rightarrow> py_state \<Rightarrow>
     (error + Signature \<times> (string option, Parameter option) pydict) \<times> py_state" where
  "eval_sig_kw_params passing_sig receiver_func keep_from_var_kw st =
     (let passing_params = dict_of_items (sig_items passing_sig) in
      case inspect_signature st receiver_func of
        Inl e \<Rightarrow> (Inl e, st)
      | Inr receiver_sig \<Rightarrow>
          (let receiver_params = sig_items receiver_sig;
               var_kw_key = find_var_kw_key passing_params;
               var_kw = var_kw_of var_kw_key passing_params;
               passing_params = pop_var_kw var_kw_key passing_params;
               to_params = to_params_of passing_params receiver_params;
               receiver_params = receiver_after passing_params receiver_params;
               st = store_receiver receiver_func receiver_params st;
               passing_params = dict_update passing_params to_params;
               passing_params = map (\<lambda>kv. (Some (fst kv), Some (snd kv))) passing_params
           in if keep_from_var_kw
              then (Inr (passing_sig, dict_set var_kw_key var_kw passing_params),
                    if no_var_kw_of receiver_params then warning receiver_func st else st)
              else (Inr (passing_sig, passing_params), st)))"

text \<open>
  The mapping at the membership test of line 42, and the mapping the function returns,
  as functions of the two signatures; \<open>eval_sig_kw_params_result\<close> below proves that
  they are what \<open>eval_sig_kw_params\<close> computes.
\<close>

definition working_params :: "Signature \<Rightarrow> (string, Parameter) pydict" where
  "working_params passing_sig =
     pop_var_kw (find_var_kw_key (dict_of_items (sig_items passing_sig)))
       (dict_of_items (sig_items passing_sig))"

definition new_params_of ::
  "Signature \<Rightarrow> Signature \<Rightarrow> bool \<Rightarrow> (string option, Parameter option) pydict" where
  "new_params_of passing_sig receiver_sig keep_from_var_kw =
     (let passing_params = dict_of_items (sig_items passing_sig);
          var_kw_key = find_var_kw_key passing_params;
          merged = map (\<lambda>kv. (Some (fst kv), Some (snd kv)))
                     (dict_update (working_params passing_sig)
                        (to_params_of (working_params passing_sig) (sig_items receiver_sig)))
      in if keep_from_var_kw
         then dict_set var_kw_key (var_kw_of var_kw_key passing_params) merged
         else merged)"

text \<open>
  \<^verbatim>\<open>passes_kws_to\<close> (lines 66 to 88): the assertion on the tuple of receivers, then
  the decorator \<^verbatim>\<open>_func\<close>, whose loop is \<open>passes_kws_to_loop\<close>.
\<close>

fun passes_kws_to_loop ::
  "nat list \<Rightarrow> bool \<Rightarrow> Signature \<Rightarrow> py_state \<Rightarrow> (error + Signature) \<times> py_state" where
  "passes_kws_to_loop [] keep_from_var_kw passing_sig st = (Inr passing_sig, st)"
| "passes_kws_to_loop (receiver_func # rest) keep_from_var_kw passing_sig st =
     (case eval_sig_kw_params passing_sig receiver_func keep_from_var_kw st of
        (Inl e, st1) \<Rightarrow> (Inl e, st1)
      | (Inr (passing_sig1, new_params), st1) \<Rightarrow>
          (case Signature_replace passing_sig1 (dict_values new_params) of
             Inl e \<Rightarrow> (Inl e, st1)
           | Inr passing_sig2 \<Rightarrow> passes_kws_to_loop rest keep_from_var_kw passing_sig2 st1))"

definition passes_kws_to_func ::
  "nat list \<Rightarrow> bool \<Rightarrow> nat \<Rightarrow> py_state \<Rightarrow> (error + nat) \<times> py_state" where
  "passes_kws_to_func receiver_funcs keep_from_var_kw passing_func st =
     (case inspect_signature st passing_func of
        Inl e \<Rightarrow> (Inl e, st)
      | Inr passing_sig \<Rightarrow>
          (case passes_kws_to_loop receiver_funcs keep_from_var_kw passing_sig st of
             (Inl e, st1) \<Rightarrow> (Inl e, st1)
           | (Inr passing_sig1, st1) \<Rightarrow>
               (case set_dunder_signature passing_func passing_sig1 st1 of
                  Inl e \<Rightarrow> (Inl e, st1)
                | Inr st2 \<Rightarrow> (Inr passing_func, st2))))"

definition passes_kws_to ::
  "nat list \<Rightarrow> bool \<Rightarrow> nat \<Rightarrow> py_state \<Rightarrow> (error + nat) \<times> py_state" where
  "passes_kws_to receiver_funcs keep_from_var_kw passing_func st =
     (if isinstance_BuiltinFunctionType st (Tuple (map Callable receiver_funcs))
      then (Inl AssertionError, st)
      else passes_kws_to_func receiver_funcs keep_from_var_kw passing_func st)"

text \<open>
  \<^verbatim>\<open>super_init_pass_on_kws\<close> (lines 91 to 116): \<open>super_init_func\<close> is its inner
  \<^verbatim>\<open>_func\<close>; a class is true in a condition, \<^verbatim>\<open>None\<close> is false.
\<close>

definition super_init_func ::
  "nat option \<Rightarrow> bool \<Rightarrow> nat \<Rightarrow> py_state \<Rightarrow> (error + nat) \<times> py_state" where
  "super_init_func super_base keep_from_var_kw func st =
     (case (case super_base of
              Some b \<Rightarrow> getattr_init st b
            | None \<Rightarrow>
                (case getmro st func of
                   Inl e \<Rightarrow> Inl e
                 | Inr mro \<Rightarrow>
                     (case first_item mro of Inl e \<Rightarrow> Inl e | Inr c \<Rightarrow> getattr_init st c))) of
        Inl e \<Rightarrow> (Inl e, st)
      | Inr to_func \<Rightarrow>
          (case getattr_init st func of
             Inl e \<Rightarrow> (Inl e, st)
           | Inr from_func \<Rightarrow>
               (case inspect_signature st from_func of
                  Inl e \<Rightarrow> (Inl e, st)
                | Inr from_sig \<Rightarrow>
                    (case eval_sig_kw_params from_sig to_func keep_from_var_kw st of
                       (Inl e, st1) \<Rightarrow> (Inl e, st1)
                     | (Inr (from_signature, signature_parameters), st1) \<Rightarrow>
                         (case Signature_replace from_signature
                                 (dict_values signature_parameters) of
                            Inl e \<Rightarrow> (Inl e, st1)
                          | Inr new_sig \<Rightarrow>
                              (case set_dunder_signature from_func new_sig st1 of
                                 Inl e \<Rightarrow> (Inl e, st1)
                               | Inr st2 \<Rightarrow> (Inr func, st2)))))))"

datatype decorated = Decorated nat | Decorator

definition super_init_pass_on_kws ::
  "nat option \<Rightarrow> nat option \<Rightarrow> bool \<Rightarrow> py_state \<Rightarrow> (error + decorated) \<times> py_state" where
  "super_init_pass_on_kws f super_base keep_from_var_kw st =
     (case f of
        Some c \<Rightarrow>
          (case super_init_func super_base keep_from_var_kw c st of
             (Inl e, st1) \<Rightarrow> (Inl e, st1)
           | (Inr r, st1) \<Rightarrow> (Inr (Decorated r), st1))
      | None \<Rightarrow> (Inr Decorator, st))"

text \<open>
  Lines 101 to 104 on their own: the receiver that \<^verbatim>\<open>_func\<close> resolves before it
  merges (\<open>super_init_func_receiver\<close> below proves that \<open>super_init_func\<close> starts
  with it).
\<close>

definition super_init_receiver :: "py_state \<Rightarrow> nat option \<Rightarrow> nat \<Rightarrow> error + nat" where
  "super_init_receiver st super_base func =
     (case super_base of
        Some b \<Rightarrow> getattr_init st b
      | None \<Rightarrow>
          (case getmro st func of
             Inl e \<Rightarrow> Inl e
           | Inr mro \<Rightarrow> (case first_item mro of Inl e \<Rightarrow> Inl e | Inr c \<Rightarrow> getattr_init st c)))"

section \<open>Writing down concrete callables\<close>

text \<open>
  Shorthands for the scenarios below: a parameter, a signature without return annotation,
  a Python function that was never decorated, a builtin, and the state that holds the
  given callables and classes under the references 0, 1, 2, ... and has logged nothing.
\<close>

definition param :: "string \<Rightarrow> ParameterKind \<Rightarrow> pyval option \<Rightarrow> Parameter" where
  "param n k d = \<lparr>name = n, kind = k, default_val = d\<rparr>"

definition signature_of :: "Parameter list \<Rightarrow> Signature" where
  "signature_of ps = \<lparr>parameters = ps, return_annotation = None\<rparr>"

definition py_function :: "Parameter list \<Rightarrow> nat \<Rightarrow> callable_obj" where
  "py_function ps c =
     \<lparr>ctype = FunctionType, own_signature = Some (signature_of ps),
      dunder_signature = None, code = c\<rparr>"

definition builtin_function :: "Parameter list \<Rightarrow> nat \<Rightarrow> callable_obj" where
  "builtin_function ps c =
     \<lparr>ctype = BuiltinFunctionType, own_signature = Some (signature_of ps),
      dunder_signature = None, code = c\<rparr>"

definition state_of :: "callable_obj list \<Rightarrow> class_obj list \<Rightarrow> py_state" where
  "state_of fs cs =
     \<lparr>callables = (\<lambda>r. if r < length fs then Some (fs ! r) else None),
      classes = (\<lambda>c. if c < length cs then Some (cs ! c) else None),
      warnings = []\<rparr>"

definition wrapper_descriptor :: "Parameter list \<Rightarrow> nat \<Rightarrow> callable_obj" where
  "wrapper_descriptor ps c =
     \<lparr>ctype = WrapperDescriptorType, own_signature = Some (signature_of ps),
      dunder_signature = None, code = c\<rparr>"

text \<open>
  The scenario of the spec's section 8: \<^verbatim>\<open>f(a, *args, **kwargs)\<close> under reference 0
  and the receiver \<^verbatim>\<open>g(a, b=1, c=2)\<close> under reference 1.
\<close>

definition f_g_state :: py_state where
  "f_g_state =
     state_of
       [py_function [param ''a'' POSITIONAL_OR_KEYWORD None, param ''args'' VAR_POSITIONAL None,
                     param ''kwargs'' VAR_KEYWORD None] 0,
        py_function [param ''a'' POSITIONAL_OR_KEYWORD None,
                     param ''b'' POSITIONAL_OR_KEYWORD (Some (PyInt 1)),
                     param ''c'' POSITIONAL_OR_KEYWORD (Some (PyInt 2))] 1] []"

text \<open>
  The class scenario of section 8. Callables: 0 is \<^verbatim>\<open>Base.__init__(self, x, y=1)\<close>,
  1 is \<^verbatim>\<open>Sub.__init__(self, x, z=2, **kwargs)\<close>, 2 is the slot wrapper
  \<^verbatim>\<open>object.__init__(self, /, *args, **kwargs)\<close>. Classes: 0 is \<^verbatim>\<open>object\<close>,
  1 is \<^verbatim>\<open>Base\<close>, 2 is \<^verbatim>\<open>Sub(Base)\<close>.
\<close>

definition sub_base_state :: py_state where
  "sub_base_state =
     state_of
       [py_function [param ''self'' POSITIONAL_OR_KEYWORD None,
                     param ''x'' POSITIONAL_OR_KEYWORD None,
                     param ''y'' POSITIONAL_OR_KEYWORD (Some (PyInt 1))] 0,
        py_function [param ''self'' POSITIONAL_OR_KEYWORD None,
                     param ''x'' POSITIONAL_OR_KEYWORD None,
                     param ''z'' POSITIONAL_OR_KEYWORD (Some (PyInt 2)),
                     param ''kwargs'' VAR_KEYWORD None] 1,
        wrapper_descriptor [param ''self'' POSITIONAL_ONLY None, param ''args'' VAR_POSITIONAL None,
                            param ''kwargs'' VAR_KEYWORD None] 2]
       [\<lparr>ancestors = [], dict_init = Some 2\<rparr>,
        \<lparr>ancestors = [0], dict_init = Some 0\<rparr>,
        \<lparr>ancestors = [1, 0], dict_init = Some 1\<rparr>]"

text \<open>
  A builtin as receiver: \<^verbatim>\<open>f(a, **kwargs)\<close> under reference 0 and the builtin
  \<^verbatim>\<open>sorted(iterable, /, *, key=None, reverse=False)\<close> under reference 1.
\<close>

definition builtin_receiver_state :: py_state where
  "builtin_receiver_state =
     state_of
       [py_function [param ''a'' POSITIONAL_OR_KEYWORD None, param ''kwargs'' VAR_KEYWORD None] 0,
        builtin_function [param ''iterable'' POSITIONAL_ONLY None,
                          param ''key'' KEYWORD_ONLY (Some PyNone),
                          param ''reverse'' KEYWORD_ONLY (Some (PyBool False))] 1] []"

text \<open>
  A pair without a common parameter name: \<^verbatim>\<open>f(a, **kwargs)\<close> under reference 0 and
  \<^verbatim>\<open>g(b=1)\<close> under reference 1.
\<close>

definition disjoint_names_state :: py_state where
  "disjoint_names_state =
     state_of
       [py_function [param ''a'' POSITIONAL_OR_KEYWORD None, param ''kwargs'' VAR_KEYWORD None] 0,
        py_function [param ''b'' POSITIONAL_OR_KEYWORD (Some (PyInt 1))] 1] []"

text \<open>
  Two receivers: \<^verbatim>\<open>f(a, **b)\<close> under reference 0, \<^verbatim>\<open>h(c=1)\<close> under reference 1
  and \<^verbatim>\<open>g(b=2, c=3, d=4)\<close> under reference 2.
\<close>

definition two_receivers_state :: py_state where
  "two_receivers_state =
     state_of
       [py_function [param ''a'' POSITIONAL_OR_KEYWORD None, param ''b'' VAR_KEYWORD None] 0,
        py_function [param ''c'' POSITIONAL_OR_KEYWORD (Some (PyInt 1))] 1,
        py_function [param ''b'' POSITIONAL_OR_KEYWORD (Some (PyInt 2)),
                     param ''c'' POSITIONAL_OR_KEYWORD (Some (PyInt 3)),
                     param ''d'' POSITIONAL_OR_KEYWORD (Some (PyInt 4))] 2] []"

text \<open>
  A receiver with a positional-only default: \<^verbatim>\<open>f(a, **kwargs)\<close> under reference 0
  and \<^verbatim>\<open>g(p=1, /)\<close> under reference 1.
\<close>

definition positional_only_receiver_state :: py_state where
  "positional_only_receiver_state =
     state_of
       [py_function [param ''a'' POSITIONAL_OR_KEYWORD None, param ''kwargs'' VAR_KEYWORD None] 0,
        py_function [param ''p'' POSITIONAL_ONLY (Some (PyInt 1))] 1] []"

section \<open>Dictionaries, the loops and the merge\<close>

lemma dict_set_new: "k \<notin> set (map fst d) \<Longrightarrow> dict_set k v d = d @ [(k, v)]"
  by (induction d) auto

lemma map_of_dict_set: "map_of (dict_set k v d) = (map_of d)(k \<mapsto> v)"
  by (induction d) (auto simp: fun_eq_iff)

lemma keys_dict_set:
  "map fst (dict_set k v d) = (if k \<in> set (map fst d) then map fst d else map fst d @ [k])"
  by (induction d) auto

lemma length_dict_set:
  "length (dict_set k v d) = (if k \<in> set (map fst d) then length d else Suc (length d))"
  by (induction d) auto

lemma dict_update_distinct:
  "distinct (map fst (d @ e)) \<Longrightarrow> dict_update d e = d @ e"
proof (induction e arbitrary: d)
  case Nil
  then show ?case by (simp add: dict_update_def)
next
  case (Cons kv e)
  have "dict_set (fst kv) (snd kv) d = d @ [kv]"
    using Cons.prems by (simp add: dict_set_new)
  moreover have "distinct (map fst ((d @ [kv]) @ e))"
    using Cons.prems by simp
  ultimately show ?case
    using Cons.IH [of "d @ [kv]"] by (simp add: dict_update_def)
qed

lemma dict_of_items_distinct: "distinct (map fst kvs) \<Longrightarrow> dict_of_items kvs = kvs"
  using dict_update_distinct [of "[]" kvs] by (simp add: dict_of_items_def)

lemma sig_items_keys: "map fst (sig_items s) = map name (parameters s)"
  by (simp add: sig_items_def comp_def)

lemma sig_items_values: "map snd (sig_items s) = parameters s"
  by (simp add: sig_items_def comp_def)

lemma dict_of_sig_items:
  "distinct (map name (parameters s)) \<Longrightarrow> dict_of_items (sig_items s) = sig_items s"
  by (simp add: dict_of_items_distinct sig_items_keys)

lemma find_app:
  "find P (xs @ ys) = (case find P xs of None \<Rightarrow> find P ys | Some x \<Rightarrow> Some x)"
  by (induction xs) auto

lemma find_SomeD: "find P xs = Some x \<Longrightarrow> x \<in> set xs \<and> P x"
  by (induction xs) (auto split: if_splits)

lemma fold_var_kw_key:
  "fold (\<lambda>kv var_kw_key. if kind (snd kv) = VAR_KEYWORD then Some (fst kv) else var_kw_key) d acc =
     (case find (\<lambda>kv. kind (snd kv) = VAR_KEYWORD) (rev d) of
        None \<Rightarrow> acc
      | Some kv \<Rightarrow> Some (fst kv))"
  by (induction d arbitrary: acc) (auto simp: find_app split: option.splits)

lemma find_var_kw_key_find:
  "find_var_kw_key d =
     map_option fst (find (\<lambda>kv. kind (snd kv) = VAR_KEYWORD) (rev d))"
  by (simp add: find_var_kw_key_def fold_var_kw_key split: option.splits)

lemma find_var_kw_key_None:
  "find_var_kw_key d = None \<longleftrightarrow> (\<forall>kv \<in> set d. kind (snd kv) \<noteq> VAR_KEYWORD)"
  by (auto simp: find_var_kw_key_find find_None_iff)

lemma find_var_kw_key_Some:
  "find_var_kw_key d = Some k \<Longrightarrow> \<exists>v. (k, v) \<in> set d \<and> kind v = VAR_KEYWORD"
  by (auto simp: find_var_kw_key_find dest!: find_SomeD)

lemma find_var_kw_key_only:
  assumes "(k, v) \<in> set d" "kind v = VAR_KEYWORD"
    and "\<forall>kv \<in> set d. kind (snd kv) = VAR_KEYWORD \<longrightarrow> kv = (k, v)"
  shows "find_var_kw_key d = Some k"
proof (cases "find_var_kw_key d")
  case None
  with assms(1,2) show ?thesis by (auto simp: find_var_kw_key_None)
next
  case (Some k')
  from find_var_kw_key_Some [OF this] obtain v' where "(k', v') \<in> set d" "kind v' = VAR_KEYWORD"
    by blast
  with assms(3) have "k' = k" by auto
  with Some show ?thesis by simp
qed

lemma eval_sig_kw_params_error:
  "inspect_signature st r = Inl e \<Longrightarrow> eval_sig_kw_params ps r keep st = (Inl e, st)"
  by (simp add: eval_sig_kw_params_def)

lemma eval_sig_kw_params_result:
  "inspect_signature st r = Inr rsig \<Longrightarrow>
     fst (eval_sig_kw_params ps r keep st) = Inr (ps, new_params_of ps rsig keep)"
  by (simp add: eval_sig_kw_params_def new_params_of_def working_params_def Let_def)

lemma eval_sig_kw_params_state:
  "inspect_signature st r = Inr rsig \<Longrightarrow>
     snd (eval_sig_kw_params ps r keep st) =
       (if keep \<and> no_var_kw_of (receiver_after (working_params ps) (sig_items rsig))
        then warning r (store_receiver r (receiver_after (working_params ps) (sig_items rsig)) st)
        else store_receiver r (receiver_after (working_params ps) (sig_items rsig)) st)"
  by (simp add: eval_sig_kw_params_def working_params_def Let_def)

lemma fold_no_var_kw:
  "fold (\<lambda>kv no_var_kw. if kind (snd kv) = VAR_KEYWORD then False else no_var_kw) d acc =
     (acc \<and> (\<forall>kv \<in> set d. kind (snd kv) \<noteq> VAR_KEYWORD))"
  by (induction d arbitrary: acc) auto

lemma no_var_kw_of_iff:
  "no_var_kw_of d \<longleftrightarrow> (\<forall>kv \<in> set d. kind (snd kv) \<noteq> VAR_KEYWORD)"
  by (simp add: no_var_kw_of_def fold_no_var_kw)

lemma to_keyword_only_var_kw [simp]:
  "kind (to_keyword_only p) = VAR_KEYWORD \<longleftrightarrow> kind p = VAR_KEYWORD"
  by (simp add: to_keyword_only_def)

lemma to_keyword_only_name [simp]: "name (to_keyword_only p) = name p"
  by (simp add: to_keyword_only_def)

lemma to_keyword_only_default [simp]: "default_val (to_keyword_only p) = default_val p"
  by (simp add: to_keyword_only_def)

lemma to_keyword_only_kind:
  "kind (to_keyword_only p) = (if kind p = POSITIONAL_OR_KEYWORD then KEYWORD_ONLY else kind p)"
  by (simp add: to_keyword_only_def)

lemma no_var_kw_of_map:
  assumes "\<And>kv. kind (snd (f kv)) = VAR_KEYWORD \<longleftrightarrow> kind (snd kv) = VAR_KEYWORD"
  shows "no_var_kw_of (map f d) \<longleftrightarrow> no_var_kw_of d"
  by (simp add: no_var_kw_of_iff assms)

lemma no_var_kw_receiver_after:
  "no_var_kw_of (receiver_after wp (sig_items rsig)) \<longleftrightarrow>
     (\<forall>p \<in> set (parameters rsig). kind p \<noteq> VAR_KEYWORD)"
proof -
  have "no_var_kw_of (receiver_after wp (sig_items rsig)) \<longleftrightarrow> no_var_kw_of (sig_items rsig)"
    unfolding receiver_after_def by (rule no_var_kw_of_map) simp
  then show ?thesis by (simp add: no_var_kw_of_iff sig_items_def)
qed

lemma pop_var_kw_filter:
  "pop_var_kw key d = filter (\<lambda>kv. Some (fst kv) \<noteq> key) d"
proof (cases key)
  case None
  then show ?thesis by (simp add: pop_var_kw_def)
next
  case (Some k)
  show ?thesis
  proof (cases "dict_contains k d")
    case True
    with Some show ?thesis by (simp add: pop_var_kw_def dict_pop_def)
  next
    case False
    then have "filter (\<lambda>kv. fst kv \<noteq> k) d = d"
      by (auto simp: dict_contains_def filter_id_conv)
    with Some False show ?thesis by (simp add: pop_var_kw_def)
  qed
qed

lemma working_params_distinct:
  assumes "distinct (map name (parameters ps))"
  shows "working_params ps =
           filter (\<lambda>kv. Some (fst kv) \<noteq> find_var_kw_key (sig_items ps)) (sig_items ps)"
  using assms by (simp add: working_params_def dict_of_sig_items pop_var_kw_filter)

lemma working_params_keys_distinct:
  "distinct (map name (parameters ps)) \<Longrightarrow> distinct (map fst (working_params ps))"
  by (simp add: working_params_distinct distinct_map_filter sig_items_keys)

lemma to_params_of_distinct:
  assumes "distinct (map fst items)"
  shows "to_params_of wp items =
           map (\<lambda>kv. (fst kv, to_keyword_only (snd kv))) (filter (selected wp) items)"
proof -
  have "distinct (map fst (map (\<lambda>kv. (fst kv, to_keyword_only (snd kv))) (filter (selected wp) items)))"
    using assms by (simp add: comp_def distinct_map_filter)
  then show ?thesis
    by (simp add: to_params_of_def dict_of_items_distinct)
qed

lemma merged_distinct:
  assumes "distinct (map name (parameters ps))" "distinct (map name (parameters rs))"
  shows "dict_update (working_params ps) (to_params_of (working_params ps) (sig_items rs)) =
           working_params ps @
           map (\<lambda>kv. (fst kv, to_keyword_only (snd kv)))
             (filter (selected (working_params ps)) (sig_items rs))"
proof -
  let ?wp = "working_params ps"
  let ?tp = "map (\<lambda>kv. (fst kv, to_keyword_only (snd kv))) (filter (selected ?wp) (sig_items rs))"
  have tp: "to_params_of ?wp (sig_items rs) = ?tp"
    using assms(2) by (simp add: to_params_of_distinct sig_items_keys)
  have d1: "distinct (map fst ?wp)"
    using assms(1) by (rule working_params_keys_distinct)
  have d2: "distinct (map fst ?tp)"
    using assms(2) by (simp add: comp_def distinct_map_filter sig_items_keys)
  have d3: "set (map fst ?wp) \<inter> set (map fst ?tp) = {}"
    by (force simp: selected_def dict_contains_def)
  have "distinct (map fst (?wp @ ?tp))"
    using d1 d2 d3 by simp
  then show ?thesis
    unfolding tp by (rule dict_update_distinct)
qed

lemma set_dict_set: "set (dict_set k v d) \<subseteq> insert (k, v) (set d)"
  by (induction d) auto

lemma set_dict_update: "set (dict_update d e) \<subseteq> set d \<union> set e"
proof (induction e arbitrary: d)
  case Nil
  then show ?case by (simp add: dict_update_def)
next
  case (Cons kv e)
  have "set (dict_update (dict_set (fst kv) (snd kv) d) e) \<subseteq> set (dict_set (fst kv) (snd kv) d) \<union> set e"
    by (rule Cons.IH)
  also have "\<dots> \<subseteq> insert kv (set d) \<union> set e"
    using set_dict_set [of "fst kv" "snd kv" d] by auto
  finally show ?case by (auto simp: dict_update_def)
qed

lemma set_dict_of_items: "set (dict_of_items kvs) \<subseteq> set kvs"
  using set_dict_update [of "[]" kvs] by (simp add: dict_of_items_def)

lemma map_of_lift:
  "map_of (map (\<lambda>kv. (Some (fst kv), Some (snd kv))) d) (Some k) = map_option Some (map_of d k)"
  by (induction d) auto

lemma lift_keys_not_None:
  "None \<notin> set (map fst (map (\<lambda>kv. (Some (fst kv), Some (snd kv))) d))"
  by (induction d) auto

lemma validate_None:
  "None \<in> set ps \<Longrightarrow> \<exists>e. validate_parameters t s acc ps = Inl e"
proof (induction ps arbitrary: t s acc)
  case Nil
  then show ?case by simp
next
  case (Cons x ps)
  show ?case
  proof (cases x)
    case None
    then show ?thesis by simp
  next
    case (Some p)
    with Cons.prems have "None \<in> set ps" by simp
    from Cons.IH [OF this] show ?thesis using Some by simp
  qed
qed

lemma Signature_replace_None:
  "None \<in> set ps \<Longrightarrow> \<exists>e. Signature_replace s ps = Inl e"
  using validate_None [of ps POSITIONAL_ONLY False "[]"]
  by (auto simp: Signature_replace_def Signature_init_def)

lemma dict_set_None_lift:
  "dict_set None v (map (\<lambda>kv. (Some (fst kv), Some (snd kv))) d) =
     map (\<lambda>kv. (Some (fst kv), Some (snd kv))) d @ [(None, v)]"
  by (rule dict_set_new) (rule lift_keys_not_None)

lemma new_params_of_no_var_kw:
  assumes "\<forall>p \<in> set (parameters ps). kind p \<noteq> VAR_KEYWORD"
  shows "new_params_of ps rs True =
           map (\<lambda>kv. (Some (fst kv), Some (snd kv)))
             (dict_update (working_params ps) (to_params_of (working_params ps) (sig_items rs)))
           @ [(None, None)]"
proof -
  have "\<forall>kv \<in> set (dict_of_items (sig_items ps)). kind (snd kv) \<noteq> VAR_KEYWORD"
    using assms set_dict_of_items [of "sig_items ps"] by (auto simp: sig_items_def)
  then have key: "find_var_kw_key (dict_of_items (sig_items ps)) = None"
    by (simp add: find_var_kw_key_None)
  show ?thesis
    by (simp add: new_params_of_def key var_kw_of_def Let_def dict_set_None_lift)
qed

lemma map_of_snoc_new:
  "k \<notin> set (map fst d) \<Longrightarrow> map_of (d @ [(k, v)]) k = Some v"
  by (induction d) auto

lemma eval_sig_kw_params_pair:
  "inspect_signature st r = Inr rsig \<Longrightarrow>
     \<exists>st1. eval_sig_kw_params ps r keep st = (Inr (ps, new_params_of ps rsig keep), st1)"
  using eval_sig_kw_params_result [of st r rsig ps keep]
  by (cases "eval_sig_kw_params ps r keep st") simp

lemma passes_kws_to_loop_step:
  "eval_sig_kw_params ps r keep st = (Inr (ps1, new), st1) \<Longrightarrow>
     passes_kws_to_loop (r # rest) keep ps st =
       (case Signature_replace ps1 (dict_values new) of
          Inl e \<Rightarrow> (Inl e, st1)
        | Inr ps2 \<Rightarrow> passes_kws_to_loop rest keep ps2 st1)"
  by simp

section \<open>The claims\<close>

text \<open>
  C9. When \<^verbatim>\<open>keep_from_var_kw\<close> is true and the passing callable has no
  variadic-keyword parameter, \<open>eval_sig_kw_params\<close> returns a mapping in which the key
  \<^verbatim>\<open>None\<close> holds the value \<^verbatim>\<open>None\<close>; rebuilding a signature from the
  values of that mapping raises, and so does the loop of \<^verbatim>\<open>passes_kws_to\<close> whenever
  this receiver comes first.
\<close>

theorem none_key_inserted:
  assumes "\<forall>p \<in> set (parameters passing_sig). kind p \<noteq> VAR_KEYWORD"
    and "inspect_signature st receiver_func = Inr receiver_sig"
  shows "\<exists>new_params st'.
           eval_sig_kw_params passing_sig receiver_func True st =
             (Inr (passing_sig, new_params), st') \<and>
           dict_get new_params None = Some None \<and>
           (\<exists>e. Signature_replace passing_sig (dict_values new_params) = Inl e) \<and>
           (\<exists>e. fst (passes_kws_to_loop (receiver_func # rest) True passing_sig st) = Inl e)"
proof -
  let ?new = "new_params_of passing_sig receiver_sig True"
  let ?merged = "map (\<lambda>kv. (Some (fst kv), Some (snd kv)))
             (dict_update (working_params passing_sig)
                (to_params_of (working_params passing_sig) (sig_items receiver_sig)))"
  have new: "?new = ?merged @ [(None, None)]"
    using assms(1) by (rule new_params_of_no_var_kw)
  obtain st1 where ev: "eval_sig_kw_params passing_sig receiver_func True st =
              (Inr (passing_sig, ?new), st1)"
    using eval_sig_kw_params_pair [OF assms(2)] by blast
  have get: "dict_get ?new None = Some None"
    unfolding new dict_get_def by (rule map_of_snoc_new) (rule lift_keys_not_None)
  have "None \<in> set (dict_values ?new)"
    by (simp add: new dict_values_def)
  then obtain e where fail: "Signature_replace passing_sig (dict_values ?new) = Inl e"
    using Signature_replace_None by blast
  have "passes_kws_to_loop (receiver_func # rest) True passing_sig st = (Inl e, st1)"
    by (simp only: passes_kws_to_loop_step [OF ev] fail sum.case)
  then have "fst (passes_kws_to_loop (receiver_func # rest) True passing_sig st) = Inl e"
    by simp
  with ev get fail show ?thesis by blast
qed

theorem none_key_inserted_witness:
  "\<exists>new_params st'.
     eval_sig_kw_params (signature_of [param ''a'' POSITIONAL_OR_KEYWORD None]) 1 True
       (state_of [py_function [param ''a'' POSITIONAL_OR_KEYWORD None] 0,
                  py_function [param ''b'' POSITIONAL_OR_KEYWORD (Some (PyInt 1))] 1] []) =
       (Inr (signature_of [param ''a'' POSITIONAL_OR_KEYWORD None], new_params), st') \<and>
     dict_get new_params None = Some None \<and>
     (\<exists>e. Signature_replace (signature_of [param ''a'' POSITIONAL_OR_KEYWORD None])
            (dict_values new_params) = Inl e) \<and>
     (\<exists>e. fst (passes_kws_to_loop [1] True (signature_of [param ''a'' POSITIONAL_OR_KEYWORD None])
              (state_of [py_function [param ''a'' POSITIONAL_OR_KEYWORD None] 0,
                         py_function [param ''b'' POSITIONAL_OR_KEYWORD (Some (PyInt 1))] 1] []))
          = Inl e)"
proof -
  have h1: "\<forall>p \<in> set (parameters (signature_of [param ''a'' POSITIONAL_OR_KEYWORD None])).
              kind p \<noteq> VAR_KEYWORD"
    by (simp add: signature_of_def param_def)
  have h2: "inspect_signature
              (state_of [py_function [param ''a'' POSITIONAL_OR_KEYWORD None] 0,
                         py_function [param ''b'' POSITIONAL_OR_KEYWORD (Some (PyInt 1))] 1] []) 1 =
            Inr (signature_of [param ''b'' POSITIONAL_OR_KEYWORD (Some (PyInt 1))])"
    by (simp add: inspect_signature_def state_of_def py_function_def)
  show ?thesis
    by (rule none_key_inserted [OF h1 h2])
qed

lemma map_of_distinct_mem:
  "distinct (map fst d) \<Longrightarrow> (k, v) \<in> set d \<Longrightarrow> map_of d k = Some v"
  by simp

lemma selected_merged_lookup:
  assumes dp: "distinct (map name (parameters ps))"
    and dr: "distinct (map name (parameters rs))"
    and p: "p \<in> set (parameters rs)"
    and sel: "selected (working_params ps) (name p, p)"
  shows "map_of (dict_update (working_params ps)
                   (to_params_of (working_params ps) (sig_items rs))) (name p) =
           Some (to_keyword_only p)"
proof -
  let ?wp = "working_params ps"
  let ?tp = "map (\<lambda>kv. (fst kv, to_keyword_only (snd kv))) (filter (selected ?wp) (sig_items rs))"
  have eq: "dict_update ?wp (to_params_of ?wp (sig_items rs)) = ?wp @ ?tp"
    using dp dr by (rule merged_distinct)
  have "(name p, p) \<in> set (filter (selected ?wp) (sig_items rs))"
    using p sel by (simp add: sig_items_def)
  then have mem: "(name p, to_keyword_only p) \<in> set (?wp @ ?tp)"
    by force
  have d1: "distinct (map fst ?wp)"
    using dp by (rule working_params_keys_distinct)
  have d2: "distinct (map fst ?tp)"
    using dr by (simp add: comp_def distinct_map_filter sig_items_keys)
  have d3: "set (map fst ?wp) \<inter> set (map fst ?tp) = {}"
    by (force simp: selected_def dict_contains_def)
  have "distinct (map fst (?wp @ ?tp))"
    using d1 d2 d3 by simp
  from map_of_distinct_mem [OF this mem] show ?thesis
    unfolding eq .
qed

lemma new_params_of_lookup:
  "keep \<longrightarrow> find_var_kw_key (dict_of_items (sig_items ps)) \<noteq> Some k \<Longrightarrow>
     dict_get (new_params_of ps rs keep) (Some k) =
       map_option Some
         (map_of (dict_update (working_params ps)
                    (to_params_of (working_params ps) (sig_items rs))) k)"
  by (auto simp: new_params_of_def Let_def dict_get_def map_of_dict_set map_of_lift)

lemma new_params_of_lookup_key:
  "find_var_kw_key (dict_of_items (sig_items ps)) = Some k \<Longrightarrow>
     dict_get (new_params_of ps rs True) (Some k) =
       Some (var_kw_of (Some k) (dict_of_items (sig_items ps)))"
  by (simp add: new_params_of_def Let_def dict_get_def map_of_dict_set)

text \<open>
  C4, as amended. A receiver parameter that passes the filter of line 42 and is not
  overwritten by the re-inserted variadic-keyword parameter stands in the returned mapping
  under its name, as \<open>to_keyword_only\<close> left it: keyword-only when its kind was
  positional-or-keyword (or keyword-only already), and of its original kind otherwise.
\<close>

theorem merged_parameter_kind:
  assumes "inspect_signature st receiver_func = Inr receiver_sig"
    and "distinct (map name (parameters passing_sig))"
    and "distinct (map name (parameters receiver_sig))"
    and "p \<in> set (parameters receiver_sig)"
    and "selected (working_params passing_sig) (name p, p)"
    and "keep_from_var_kw \<longrightarrow> find_var_kw_key (sig_items passing_sig) \<noteq> Some (name p)"
  shows "\<exists>new_params st' q.
           eval_sig_kw_params passing_sig receiver_func keep_from_var_kw st =
             (Inr (passing_sig, new_params), st') \<and>
           dict_get new_params (Some (name p)) = Some (Some q) \<and>
           q = to_keyword_only p \<and>
           kind q = (if kind p = POSITIONAL_OR_KEYWORD then KEYWORD_ONLY else kind p)"
proof -
  obtain st1 where ev: "eval_sig_kw_params passing_sig receiver_func keep_from_var_kw st =
      (Inr (passing_sig, new_params_of passing_sig receiver_sig keep_from_var_kw), st1)"
    using eval_sig_kw_params_pair [OF assms(1)] by blast
  have key: "keep_from_var_kw \<longrightarrow>
               find_var_kw_key (dict_of_items (sig_items passing_sig)) \<noteq> Some (name p)"
    using assms(2,6) by (simp add: dict_of_sig_items)
  have "dict_get (new_params_of passing_sig receiver_sig keep_from_var_kw) (Some (name p)) =
          Some (Some (to_keyword_only p))"
    by (simp add: new_params_of_lookup [OF key]
        selected_merged_lookup [OF assms(2,3,4,5)])
  with ev show ?thesis
    by (simp add: to_keyword_only_kind)
qed

theorem merged_parameter_kind_witness:
  "\<exists>new_params st' q.
     eval_sig_kw_params
       (signature_of [param ''a'' POSITIONAL_OR_KEYWORD None, param ''kwargs'' VAR_KEYWORD None]) 1 True
       (state_of [py_function [param ''a'' POSITIONAL_OR_KEYWORD None, param ''kwargs'' VAR_KEYWORD None] 0,
                  py_function [param ''b'' POSITIONAL_OR_KEYWORD (Some (PyInt 1))] 1] []) =
       (Inr (signature_of [param ''a'' POSITIONAL_OR_KEYWORD None, param ''kwargs'' VAR_KEYWORD None],
             new_params), st') \<and>
     dict_get new_params (Some ''b'') = Some (Some q) \<and>
     q = param ''b'' KEYWORD_ONLY (Some (PyInt 1)) \<and>
     kind q = KEYWORD_ONLY"
proof -
  let ?ps = "signature_of [param ''a'' POSITIONAL_OR_KEYWORD None, param ''kwargs'' VAR_KEYWORD None]"
  let ?rs = "signature_of [param ''b'' POSITIONAL_OR_KEYWORD (Some (PyInt 1))]"
  let ?st = "state_of [py_function [param ''a'' POSITIONAL_OR_KEYWORD None, param ''kwargs'' VAR_KEYWORD None] 0,
                  py_function [param ''b'' POSITIONAL_OR_KEYWORD (Some (PyInt 1))] 1] []"
  let ?p = "param ''b'' POSITIONAL_OR_KEYWORD (Some (PyInt 1))"
  have h1: "inspect_signature ?st 1 = Inr ?rs"
    by (simp add: inspect_signature_def state_of_def py_function_def)
  have h2: "distinct (map name (parameters ?ps))"
    by (simp add: signature_of_def param_def)
  have h3: "distinct (map name (parameters ?rs))"
    by (simp add: signature_of_def param_def)
  have h4: "?p \<in> set (parameters ?rs)"
    by (simp add: signature_of_def)
  have h5: "selected (working_params ?ps) (name ?p, ?p)"
    by (simp add: selected_def working_params_def dict_of_items_def dict_update_def
        sig_items_def signature_of_def param_def find_var_kw_key_def pop_var_kw_def
        dict_contains_def dict_pop_def)
  have h6: "True \<longrightarrow> find_var_kw_key (sig_items ?ps) \<noteq> Some (name ?p)"
    by (simp add: find_var_kw_key_def sig_items_def signature_of_def param_def)
  have n: "name ?p = ''b''" "kind ?p = POSITIONAL_OR_KEYWORD"
    by (simp_all add: param_def)
  have k: "to_keyword_only ?p = param ''b'' KEYWORD_ONLY (Some (PyInt 1))"
    by (simp add: to_keyword_only_def param_def)
  show ?thesis
    using merged_parameter_kind [OF h1 h2 h3 h4 h5 h6]
    unfolding n k by simp
qed

text \<open>
  C4 as stated fails: with passing \<^verbatim>\<open>f(a)\<close> and receiver \<^verbatim>\<open>g(p=1, /)\<close> the
  merged parameter \<^verbatim>\<open>p\<close> is positional-only in the returned mapping.
\<close>

theorem positional_only_not_reclassified:
  "eval_sig_kw_params (signature_of [param ''a'' POSITIONAL_OR_KEYWORD None]) 1 False
     (state_of [py_function [param ''a'' POSITIONAL_OR_KEYWORD None] 0,
                py_function [param ''p'' POSITIONAL_ONLY (Some (PyInt 1))] 1] []) =
   (Inr (signature_of [param ''a'' POSITIONAL_OR_KEYWORD None],
         [(Some ''a'', Some (param ''a'' POSITIONAL_OR_KEYWORD None)),
          (Some ''p'', Some (param ''p'' POSITIONAL_ONLY (Some (PyInt 1))))]),
    state_of [py_function [param ''a'' POSITIONAL_OR_KEYWORD None] 0,
              py_function [param ''p'' POSITIONAL_ONLY (Some (PyInt 1))] 1] [])"
  by (simp add: eval_sig_kw_params_def inspect_signature_def state_of_def py_function_def
      signature_of_def param_def sig_items_def dict_of_items_def dict_update_def
      find_var_kw_key_def var_kw_of_def pop_var_kw_def to_params_of_def selected_def
      dict_contains_def receiver_after_def store_receiver_def to_keyword_only_def Let_def)

lemma find_var_kw_key_sig:
  assumes "vk \<in> set (parameters ps)" "kind vk = VAR_KEYWORD"
    and "\<forall>q \<in> set (parameters ps). kind q = VAR_KEYWORD \<longrightarrow> q = vk"
  shows "find_var_kw_key (sig_items ps) = Some (name vk)"
proof (rule find_var_kw_key_only)
  show "(name vk, vk) \<in> set (sig_items ps)"
    using assms(1) by (simp add: sig_items_def)
  show "kind vk = VAR_KEYWORD" by (rule assms(2))
  show "\<forall>kv \<in> set (sig_items ps). kind (snd kv) = VAR_KEYWORD \<longrightarrow> kv = (name vk, vk)"
    using assms(3) by (auto simp: sig_items_def)
qed

lemma var_kw_of_sig:
  assumes "distinct (map name (parameters ps))" "vk \<in> set (parameters ps)"
  shows "var_kw_of (Some (name vk)) (sig_items ps) = Some vk"
proof -
  have mem: "(name vk, vk) \<in> set (sig_items ps)"
    using assms(2) by (simp add: sig_items_def)
  then have "dict_contains (name vk) (sig_items ps)"
    by (force simp: dict_contains_def)
  moreover have "map_of (sig_items ps) (name vk) = Some vk"
    using assms(1) mem by (simp add: sig_items_keys)
  ultimately show ?thesis by (simp add: var_kw_of_def dict_get_def)
qed

text \<open>
  C10. A receiver parameter with a default that has the name of the passing callable's
  variadic-keyword parameter: the name is a key of the passing callable's parameters but
  no longer of the working mapping when line 42 tests it, so the parameter is selected.
  Without \<^verbatim>\<open>keep_from_var_kw\<close> the returned mapping holds it (reclassified)
  under that name; with \<^verbatim>\<open>keep_from_var_kw\<close> line 48 stores the variadic-keyword
  parameter over it.
\<close>

theorem var_kw_name_not_blocked:
  assumes "inspect_signature st receiver_func = Inr receiver_sig"
    and "distinct (map name (parameters passing_sig))"
    and "distinct (map name (parameters receiver_sig))"
    and "vk \<in> set (parameters passing_sig)" and "kind vk = VAR_KEYWORD"
    and "\<forall>q \<in> set (parameters passing_sig). kind q = VAR_KEYWORD \<longrightarrow> q = vk"
    and "p \<in> set (parameters receiver_sig)" and "default_val p \<noteq> None"
    and "name p = name vk"
  shows "dict_contains (name p) (sig_items passing_sig) \<and>
         \<not> dict_contains (name p) (working_params passing_sig) \<and>
         selected (working_params passing_sig) (name p, p) \<and>
         (\<exists>new_params st'.
            eval_sig_kw_params passing_sig receiver_func False st =
              (Inr (passing_sig, new_params), st') \<and>
            dict_get new_params (Some (name p)) = Some (Some (to_keyword_only p))) \<and>
         (\<exists>new_params st'.
            eval_sig_kw_params passing_sig receiver_func True st =
              (Inr (passing_sig, new_params), st') \<and>
            dict_get new_params (Some (name p)) = Some (Some vk))"
proof -
  have key: "find_var_kw_key (sig_items passing_sig) = Some (name p)"
    using find_var_kw_key_sig [OF assms(4,5,6)] assms(9) by simp
  have c1: "dict_contains (name p) (sig_items passing_sig)"
    using assms(4,9) by (force simp: dict_contains_def sig_items_def)
  have c2: "\<not> dict_contains (name p) (working_params passing_sig)"
    by (auto simp: working_params_distinct [OF assms(2)] key dict_contains_def)
  have c3: "selected (working_params passing_sig) (name p, p)"
    using c2 assms(8) by (simp add: selected_def)
  obtain s1 where ev1: "eval_sig_kw_params passing_sig receiver_func False st =
      (Inr (passing_sig, new_params_of passing_sig receiver_sig False), s1)"
    using eval_sig_kw_params_pair [OF assms(1)] by blast
  obtain s2 where ev2: "eval_sig_kw_params passing_sig receiver_func True st =
      (Inr (passing_sig, new_params_of passing_sig receiver_sig True), s2)"
    using eval_sig_kw_params_pair [OF assms(1)] by blast
  have g1: "dict_get (new_params_of passing_sig receiver_sig False) (Some (name p)) =
              Some (Some (to_keyword_only p))"
    by (simp add: new_params_of_lookup selected_merged_lookup [OF assms(2,3,7) c3])
  have key': "find_var_kw_key (dict_of_items (sig_items passing_sig)) = Some (name p)"
    using key assms(2) by (simp add: dict_of_sig_items)
  have g2: "dict_get (new_params_of passing_sig receiver_sig True) (Some (name p)) =
              Some (Some vk)"
  proof -
    have "dict_get (new_params_of passing_sig receiver_sig True) (Some (name p)) =
            Some (var_kw_of (Some (name p)) (dict_of_items (sig_items passing_sig)))"
      using key' by (rule new_params_of_lookup_key)
    also have "var_kw_of (Some (name p)) (dict_of_items (sig_items passing_sig)) =
                 var_kw_of (Some (name vk)) (sig_items passing_sig)"
      using assms(2,9) by (simp add: dict_of_sig_items)
    also have "\<dots> = Some vk"
      using assms(2,4) by (rule var_kw_of_sig)
    finally show ?thesis .
  qed
  from c1 c2 c3 ev1 ev2 g1 g2 show ?thesis by blast
qed

theorem var_kw_name_not_blocked_witness:
  "dict_contains ''b''
     (sig_items (signature_of [param ''a'' POSITIONAL_OR_KEYWORD None, param ''b'' VAR_KEYWORD None])) \<and>
   \<not> dict_contains ''b''
     (working_params (signature_of [param ''a'' POSITIONAL_OR_KEYWORD None, param ''b'' VAR_KEYWORD None])) \<and>
   (\<exists>new_params st'.
      eval_sig_kw_params
        (signature_of [param ''a'' POSITIONAL_OR_KEYWORD None, param ''b'' VAR_KEYWORD None]) 1 False
        (state_of [py_function [param ''a'' POSITIONAL_OR_KEYWORD None, param ''b'' VAR_KEYWORD None] 0,
                   py_function [param ''b'' POSITIONAL_OR_KEYWORD (Some (PyInt 1))] 1] []) =
        (Inr (signature_of [param ''a'' POSITIONAL_OR_KEYWORD None, param ''b'' VAR_KEYWORD None],
              new_params), st') \<and>
      dict_get new_params (Some ''b'') = Some (Some (param ''b'' KEYWORD_ONLY (Some (PyInt 1))))) \<and>
   (\<exists>new_params st'.
      eval_sig_kw_params
        (signature_of [param ''a'' POSITIONAL_OR_KEYWORD None, param ''b'' VAR_KEYWORD None]) 1 True
        (state_of [py_function [param ''a'' POSITIONAL_OR_KEYWORD None, param ''b'' VAR_KEYWORD None] 0,
                   py_function [param ''b'' POSITIONAL_OR_KEYWORD (Some (PyInt 1))] 1] []) =
        (Inr (signature_of [param ''a'' POSITIONAL_OR_KEYWORD None, param ''b'' VAR_KEYWORD None],
              new_params), st') \<and>
      dict_get new_params (Some ''b'') = Some (Some (param ''b'' VAR_KEYWORD None)))"
proof -
  let ?ps = "signature_of [param ''a'' POSITIONAL_OR_KEYWORD None, param ''b'' VAR_KEYWORD None]"
  let ?rs = "signature_of [param ''b'' POSITIONAL_OR_KEYWORD (Some (PyInt 1))]"
  let ?st = "state_of [py_function [param ''a'' POSITIONAL_OR_KEYWORD None, param ''b'' VAR_KEYWORD None] 0,
                   py_function [param ''b'' POSITIONAL_OR_KEYWORD (Some (PyInt 1))] 1] []"
  have h1: "inspect_signature ?st 1 = Inr ?rs"
    by (simp add: inspect_signature_def state_of_def py_function_def)
  have h2: "distinct (map name (parameters ?ps))"
    by (simp add: signature_of_def param_def)
  have h3: "distinct (map name (parameters ?rs))"
    by (simp add: signature_of_def param_def)
  have h4: "param ''b'' VAR_KEYWORD None \<in> set (parameters ?ps)"
    by (simp add: signature_of_def)
  have h5: "kind (param ''b'' VAR_KEYWORD None) = VAR_KEYWORD"
    by (simp add: param_def)
  have h6: "\<forall>q \<in> set (parameters ?ps). kind q = VAR_KEYWORD \<longrightarrow> q = param ''b'' VAR_KEYWORD None"
    by (simp add: signature_of_def param_def)
  have h7: "param ''b'' POSITIONAL_OR_KEYWORD (Some (PyInt 1)) \<in> set (parameters ?rs)"
    by (simp add: signature_of_def)
  have h8: "default_val (param ''b'' POSITIONAL_OR_KEYWORD (Some (PyInt 1))) \<noteq> None"
    by (simp add: param_def)
  have h9: "name (param ''b'' POSITIONAL_OR_KEYWORD (Some (PyInt 1))) = name (param ''b'' VAR_KEYWORD None)"
    by (simp add: param_def)
  have n: "name (param ''b'' POSITIONAL_OR_KEYWORD (Some (PyInt 1))) = ''b''"
    by (simp add: param_def)
  have k: "to_keyword_only (param ''b'' POSITIONAL_OR_KEYWORD (Some (PyInt 1))) =
             param ''b'' KEYWORD_ONLY (Some (PyInt 1))"
    by (simp add: to_keyword_only_def param_def)
  show ?thesis
    using var_kw_name_not_blocked [OF h1 h2 h3 h4 h5 h6 h7 h8 h9]
    unfolding n k by blast
qed

subsection \<open>Evaluating the scenarios\<close>

lemmas model_defs =
  eval_sig_kw_params_def inspect_signature_def set_dunder_signature_def
  passes_kws_to_def passes_kws_to_func_def super_init_pass_on_kws_def super_init_func_def
  getmro_def first_item_def getattr_init_def
  sig_items_def dict_of_items_def dict_update_def dict_values_def dict_contains_def
  dict_get_def dict_pop_def
  find_var_kw_key_def var_kw_of_def pop_var_kw_def to_params_of_def selected_def
  receiver_after_def store_receiver_def no_var_kw_of_def warning_def to_keyword_only_def
  Signature_replace_def Signature_init_def is_positional_def
  state_of_def py_function_def builtin_function_def wrapper_descriptor_def
  signature_of_def param_def Let_def

text \<open>
  C2, as amended. Decorating \<^verbatim>\<open>f(a, *args, **kwargs)\<close> with
  \<^verbatim>\<open>passes_kws_to(g)\<close> for \<^verbatim>\<open>g(a, b=1, c=2)\<close> gives \<^verbatim>\<open>f\<close> the signature
  \<^verbatim>\<open>(a, *args, b=1, c=2)\<close>: \<^verbatim>\<open>a\<close> and \<^verbatim>\<open>*args\<close> stay, \<^verbatim>\<open>b\<close> and
  \<^verbatim>\<open>c\<close> come in keyword-only, \<^verbatim>\<open>**kwargs\<close> is dropped. With
  \<^verbatim>\<open>keep_from_var_kw=True\<close> the signature is \<^verbatim>\<open>(a, *args, b=1, c=2, **kwargs)\<close>
  and the one warning names \<^verbatim>\<open>g\<close>.
\<close>

theorem passes_kws_to_f_g:
  "fst (passes_kws_to [1] False 0 f_g_state) = Inr 0 \<and>
   inspect_signature (snd (passes_kws_to [1] False 0 f_g_state)) 0 =
     Inr (signature_of
            [param ''a'' POSITIONAL_OR_KEYWORD None, param ''args'' VAR_POSITIONAL None,
             param ''b'' KEYWORD_ONLY (Some (PyInt 1)), param ''c'' KEYWORD_ONLY (Some (PyInt 2))]) \<and>
   fst (passes_kws_to [1] True 0 f_g_state) = Inr 0 \<and>
   inspect_signature (snd (passes_kws_to [1] True 0 f_g_state)) 0 =
     Inr (signature_of
            [param ''a'' POSITIONAL_OR_KEYWORD None, param ''args'' VAR_POSITIONAL None,
             param ''b'' KEYWORD_ONLY (Some (PyInt 1)), param ''c'' KEYWORD_ONLY (Some (PyInt 2)),
             param ''kwargs'' VAR_KEYWORD None]) \<and>
   warnings (snd (passes_kws_to [1] True 0 f_g_state)) = [1]"
  by (simp add: model_defs f_g_state_def)

text \<open>
  C2 as stated fails: without \<^verbatim>\<open>keep_from_var_kw\<close> the signature written onto
  \<^verbatim>\<open>f\<close> is not \<^verbatim>\<open>(a, *, b=1, c=2, **kwargs)\<close>.
\<close>

theorem passes_kws_to_f_g_not_as_claimed:
  "inspect_signature (snd (passes_kws_to [1] False 0 f_g_state)) 0 \<noteq>
     Inr (signature_of
            [param ''a'' POSITIONAL_OR_KEYWORD None,
             param ''b'' KEYWORD_ONLY (Some (PyInt 1)), param ''c'' KEYWORD_ONLY (Some (PyInt 2)),
             param ''kwargs'' VAR_KEYWORD None])"
  by (simp add: model_defs f_g_state_def)

text \<open>The first entry of the MRO is the class itself, whatever its ancestors.\<close>

lemma first_of_mro: "getmro st c = Inr mro \<Longrightarrow> first_item mro = Inr c"
  by (auto simp: getmro_def first_item_def split: option.splits)

text \<open>
  C1 is not what the code does. For \<^verbatim>\<open>Sub(Base)\<close> decorated without
  \<^verbatim>\<open>super_base\<close>, line 104 takes \<^verbatim>\<open>getmro(func)[0]\<close>, which is \<^verbatim>\<open>Sub\<close>
  itself, so the receiver is \<^verbatim>\<open>Sub.__init__\<close>: nothing is merged, and the advertised
  signature becomes \<^verbatim>\<open>(self, x, z=2)\<close>, without \<^verbatim>\<open>y\<close>. With
  \<^verbatim>\<open>super_base=Base\<close> the same class gets \<^verbatim>\<open>(self, x, z=2, *, y=1)\<close>.
\<close>

theorem super_init_without_base:
  "fst (super_init_pass_on_kws (Some 2) None False sub_base_state) = Inr (Decorated 2) \<and>
   inspect_signature (snd (super_init_pass_on_kws (Some 2) None False sub_base_state)) 1 =
     Inr (signature_of
            [param ''self'' POSITIONAL_OR_KEYWORD None, param ''x'' POSITIONAL_OR_KEYWORD None,
             param ''z'' POSITIONAL_OR_KEYWORD (Some (PyInt 2))]) \<and>
   inspect_signature (snd (super_init_pass_on_kws (Some 2) (Some 1) False sub_base_state)) 1 =
     Inr (signature_of
            [param ''self'' POSITIONAL_OR_KEYWORD None, param ''x'' POSITIONAL_OR_KEYWORD None,
             param ''z'' POSITIONAL_OR_KEYWORD (Some (PyInt 2)),
             param ''y'' KEYWORD_ONLY (Some (PyInt 1))])"
  by (simp add: model_defs sub_base_state_def)

text \<open>
  C3 is not what the code does. The assertion of line 76 tests the tuple of receivers,
  never a receiver, so it holds for every call; with the builtin \<^verbatim>\<open>sorted\<close> as
  receiver the decoration goes through and merges its keyword parameters.
\<close>

theorem builtin_receiver_accepted:
  "isinstance_BuiltinFunctionType builtin_receiver_state (Callable 1) \<and>
   fst (passes_kws_to [1] False 0 builtin_receiver_state) = Inr 0 \<and>
   inspect_signature (snd (passes_kws_to [1] False 0 builtin_receiver_state)) 0 =
     Inr (signature_of
            [param ''a'' POSITIONAL_OR_KEYWORD None, param ''key'' KEYWORD_ONLY (Some PyNone),
             param ''reverse'' KEYWORD_ONLY (Some (PyBool False))])"
  by (simp add: model_defs builtin_receiver_state_def)

lemma assertion_never_fails:
  "passes_kws_to receiver_funcs keep passing_func st =
     passes_kws_to_func receiver_funcs keep passing_func st"
  by (simp add: passes_kws_to_def)

subsection \<open>What a decoration leaves alone\<close>

lemma store_receiver_frame:
  "classes (store_receiver r ps st) = classes st \<and>
   warnings (store_receiver r ps st) = warnings st \<and>
   map_option (\<lambda>obj. obj\<lparr>dunder_signature := None\<rparr>) (callables (store_receiver r ps st) x) =
     map_option (\<lambda>obj. obj\<lparr>dunder_signature := None\<rparr>) (callables st x)"
  by (auto simp: store_receiver_def split: option.splits)

lemma warning_frame:
  "classes (warning r st) = classes st \<and> callables (warning r st) = callables st"
  by (simp add: warning_def)

lemma eval_sig_kw_params_frame:
  assumes "eval_sig_kw_params ps r keep st = (res, st')"
  shows "classes st' = classes st \<and>
         map_option (\<lambda>obj. obj\<lparr>dunder_signature := None\<rparr>) (callables st' x) =
           map_option (\<lambda>obj. obj\<lparr>dunder_signature := None\<rparr>) (callables st x)"
proof (cases "inspect_signature st r")
  case (Inl e)
  with assms show ?thesis by (simp add: eval_sig_kw_params_error)
next
  case (Inr rsig)
  have "st' = snd (eval_sig_kw_params ps r keep st)"
    using assms by simp
  then show ?thesis
    by (simp add: eval_sig_kw_params_state [OF Inr] store_receiver_frame warning_frame)
qed

lemma passes_kws_to_loop_frame:
  "passes_kws_to_loop rs keep ps st = (res, st') \<Longrightarrow>
     classes st' = classes st \<and>
     map_option (\<lambda>obj. obj\<lparr>dunder_signature := None\<rparr>) (callables st' x) =
       map_option (\<lambda>obj. obj\<lparr>dunder_signature := None\<rparr>) (callables st x)"
proof (induction rs arbitrary: ps st)
  case Nil
  then show ?case by simp
next
  case (Cons r rs)
  obtain res1 st1 where ev: "eval_sig_kw_params ps r keep st = (res1, st1)"
    by (cases "eval_sig_kw_params ps r keep st")
  note fr = eval_sig_kw_params_frame [OF ev, of x]
  show ?case
  proof (cases res1)
    case (Inl e)
    with Cons.prems ev fr show ?thesis by simp
  next
    case (Inr pr)
    obtain ps1 new where pr: "pr = (ps1, new)" by (cases pr)
    show ?thesis
    proof (cases "Signature_replace ps1 (dict_values new)")
      case (Inl e)
      with Cons.prems ev Inr pr fr show ?thesis by simp
    next
      case (Inr ps2)
      with Cons.prems ev \<open>res1 = Inr pr\<close> pr
      have "passes_kws_to_loop rs keep ps2 st1 = (res, st')" by simp
      from Cons.IH [OF this] fr show ?thesis by simp
    qed
  qed
qed

lemma set_dunder_signature_Inr:
  "set_dunder_signature r s st = Inr st' \<Longrightarrow>
     \<exists>obj. callables st r = Some obj \<and> ctype obj = FunctionType \<and>
           st' = st\<lparr>callables := (callables st)(r \<mapsto> obj\<lparr>dunder_signature := Some s\<rparr>)\<rparr>"
  by (auto simp: set_dunder_signature_def split: option.splits if_splits)

lemma erase_eq_update:
  assumes "obj1\<lparr>dunder_signature := None\<rparr> = (obj :: callable_obj)\<lparr>dunder_signature := None\<rparr>"
  shows "obj1\<lparr>dunder_signature := Some s\<rparr> = obj\<lparr>dunder_signature := Some s\<rparr>"
proof -
  have "obj1\<lparr>dunder_signature := Some s\<rparr> = (obj1\<lparr>dunder_signature := None\<rparr>)\<lparr>dunder_signature := Some s\<rparr>"
    by simp
  also have "\<dots> = (obj\<lparr>dunder_signature := None\<rparr>)\<lparr>dunder_signature := Some s\<rparr>"
    by (simp only: assms)
  also have "\<dots> = obj\<lparr>dunder_signature := Some s\<rparr>" by simp
  finally show ?thesis .
qed

lemma passes_kws_to_func_frame:
  assumes "passes_kws_to_func rs keep f st = (Inr r, st')"
  shows "r = f \<and> classes st' = classes st \<and>
         (\<forall>x. map_option (\<lambda>obj. obj\<lparr>dunder_signature := None\<rparr>) (callables st' x) =
              map_option (\<lambda>obj. obj\<lparr>dunder_signature := None\<rparr>) (callables st x)) \<and>
         (\<exists>obj s. callables st f = Some obj \<and>
                  callables st' f = Some (obj\<lparr>dunder_signature := Some s\<rparr>))"
proof -
  from assms obtain ps where ps: "inspect_signature st f = Inr ps"
    by (cases "inspect_signature st f") (auto simp: passes_kws_to_func_def)
  obtain res1 st1 where lp: "passes_kws_to_loop rs keep ps st = (res1, st1)"
    by (cases "passes_kws_to_loop rs keep ps st")
  from assms ps lp obtain ps1 where res1: "res1 = Inr ps1"
    by (cases res1) (auto simp: passes_kws_to_func_def)
  from assms ps lp res1 have set: "set_dunder_signature f ps1 st1 = Inr st'" and r: "r = f"
    by (auto simp: passes_kws_to_func_def split: sum.splits)
  from set_dunder_signature_Inr [OF set] obtain obj1 where
    o1: "callables st1 f = Some obj1" and
    st': "st' = st1\<lparr>callables := (callables st1)(f \<mapsto> obj1\<lparr>dunder_signature := Some ps1\<rparr>)\<rparr>"
    by blast
  note fr = passes_kws_to_loop_frame [OF lp]
  have cl: "classes st' = classes st"
    using fr [of f] st' by simp
  have er: "map_option (\<lambda>obj. obj\<lparr>dunder_signature := None\<rparr>) (callables st' x) =
              map_option (\<lambda>obj. obj\<lparr>dunder_signature := None\<rparr>) (callables st x)" for x
  proof (cases "x = f")
    case True
    have "map_option (\<lambda>obj. obj\<lparr>dunder_signature := None\<rparr>) (callables st' f) =
            map_option (\<lambda>obj. obj\<lparr>dunder_signature := None\<rparr>) (callables st1 f)"
      by (simp add: st' o1)
    with fr [of f] True show ?thesis by simp
  next
    case False
    with fr [of x] show ?thesis by (simp add: st')
  qed
  from fr [of f] o1 obtain obj where o: "callables st f = Some obj"
    and eq: "obj1\<lparr>dunder_signature := None\<rparr> = obj\<lparr>dunder_signature := None\<rparr>"
    by (cases "callables st f") auto
  have "callables st' f = Some (obj\<lparr>dunder_signature := Some ps1\<rparr>)"
    using erase_eq_update [OF eq, of ps1] by (simp add: st')
  with r cl er o show ?thesis by blast
qed

lemma super_init_func_frame:
  assumes "super_init_func super_base keep func st = (Inr r, st')"
  shows "r = func \<and> classes st' = classes st \<and>
         (\<forall>x. map_option (\<lambda>obj. obj\<lparr>dunder_signature := None\<rparr>) (callables st' x) =
              map_option (\<lambda>obj. obj\<lparr>dunder_signature := None\<rparr>) (callables st x)) \<and>
         (\<exists>from_func obj s. getattr_init st func = Inr from_func \<and>
                  callables st from_func = Some obj \<and>
                  callables st' from_func = Some (obj\<lparr>dunder_signature := Some s\<rparr>))"
proof -
  from assms obtain to_func from_func from_sig where
    ff: "getattr_init st func = Inr from_func" and
    fs: "inspect_signature st from_func = Inr from_sig" and
    rest: "(case eval_sig_kw_params from_sig to_func keep st of
             (Inl e, st1) \<Rightarrow> (Inl e, st1)
           | (Inr (from_signature, signature_parameters), st1) \<Rightarrow>
               (case Signature_replace from_signature (dict_values signature_parameters) of
                  Inl e \<Rightarrow> (Inl e, st1)
                | Inr new_sig \<Rightarrow>
                    (case set_dunder_signature from_func new_sig st1 of
                       Inl e \<Rightarrow> (Inl e, st1)
                     | Inr st2 \<Rightarrow> (Inr func, st2)))) = (Inr r, st')"
    unfolding super_init_func_def by (auto split: sum.splits)
  obtain res1 st1 where ev: "eval_sig_kw_params from_sig to_func keep st = (res1, st1)"
    by (cases "eval_sig_kw_params from_sig to_func keep st")
  from rest ev obtain new_sig where
    set: "set_dunder_signature from_func new_sig st1 = Inr st'" and r: "r = func"
    by (auto split: sum.splits prod.splits)
  from set_dunder_signature_Inr [OF set] obtain obj1 where
    o1: "callables st1 from_func = Some obj1" and
    st': "st' = st1\<lparr>callables := (callables st1)(from_func \<mapsto> obj1\<lparr>dunder_signature := Some new_sig\<rparr>)\<rparr>"
    by blast
  note fr = eval_sig_kw_params_frame [OF ev]
  have cl: "classes st' = classes st"
    using fr [of from_func] st' by simp
  have er: "map_option (\<lambda>obj. obj\<lparr>dunder_signature := None\<rparr>) (callables st' x) =
              map_option (\<lambda>obj. obj\<lparr>dunder_signature := None\<rparr>) (callables st x)" for x
  proof (cases "x = from_func")
    case True
    have "map_option (\<lambda>obj. obj\<lparr>dunder_signature := None\<rparr>) (callables st' from_func) =
            map_option (\<lambda>obj. obj\<lparr>dunder_signature := None\<rparr>) (callables st1 from_func)"
      by (simp add: st' o1)
    with fr [of from_func] True show ?thesis by simp
  next
    case False
    with fr [of x] show ?thesis by (simp add: st')
  qed
  from fr [of from_func] o1 obtain obj where o: "callables st from_func = Some obj"
    and eq: "obj1\<lparr>dunder_signature := None\<rparr> = obj\<lparr>dunder_signature := None\<rparr>"
    by (cases "callables st from_func") auto
  have "callables st' from_func = Some (obj\<lparr>dunder_signature := Some new_sig\<rparr>)"
    using erase_eq_update [OF eq, of new_sig] by (simp add: st')
  with r cl er o ff show ?thesis by blast
qed

lemma super_init_pass_on_kws_Some:
  "super_init_pass_on_kws (Some func) super_base keep st = (Inr d, st') \<Longrightarrow>
     \<exists>r. super_init_func super_base keep func st = (Inr r, st') \<and> d = Decorated r"
  by (auto simp: super_init_pass_on_kws_def split: prod.splits sum.splits)

text \<open>
  C8. A decoration that returns gives back the reference it was given: \<^verbatim>\<open>passes_kws_to\<close>
  the passing callable, \<^verbatim>\<open>super_init_pass_on_kws\<close> the class (called on the class, or
  through the decorator \<^verbatim>\<open>_func\<close> it returns). No class changes, and no callable changes
  its type, the signature of its definition or its code. The callable whose signature is
  rewritten (the passing callable, or the \<^verbatim>\<open>__init__\<close> found on the class) is afterwards
  the object it was with \<^verbatim>\<open>__signature__\<close> set.
\<close>

theorem decoration_changes_only_signature:
  "(passes_kws_to receiver_funcs keep passing_func st = (Inr r, st') \<longrightarrow>
      r = passing_func \<and> classes st' = classes st \<and>
      (\<forall>x. map_option (\<lambda>obj. obj\<lparr>dunder_signature := None\<rparr>) (callables st' x) =
           map_option (\<lambda>obj. obj\<lparr>dunder_signature := None\<rparr>) (callables st x)) \<and>
      (\<exists>obj s. callables st passing_func = Some obj \<and>
               callables st' passing_func = Some (obj\<lparr>dunder_signature := Some s\<rparr>))) \<and>
   (super_init_pass_on_kws (Some func) super_base keep st = (Inr d, st') \<longrightarrow>
      d = Decorated func \<and> classes st' = classes st \<and>
      (\<forall>x. map_option (\<lambda>obj. obj\<lparr>dunder_signature := None\<rparr>) (callables st' x) =
           map_option (\<lambda>obj. obj\<lparr>dunder_signature := None\<rparr>) (callables st x)) \<and>
      (\<exists>from_func obj s. getattr_init st func = Inr from_func \<and>
               callables st from_func = Some obj \<and>
               callables st' from_func = Some (obj\<lparr>dunder_signature := Some s\<rparr>))) \<and>
   (super_init_func super_base keep func st = (Inr c, st') \<longrightarrow>
      c = func \<and> classes st' = classes st \<and>
      (\<forall>x. map_option (\<lambda>obj. obj\<lparr>dunder_signature := None\<rparr>) (callables st' x) =
           map_option (\<lambda>obj. obj\<lparr>dunder_signature := None\<rparr>) (callables st x)) \<and>
      (\<exists>from_func obj s. getattr_init st func = Inr from_func \<and>
               callables st from_func = Some obj \<and>
               callables st' from_func = Some (obj\<lparr>dunder_signature := Some s\<rparr>)))"
proof (intro conjI impI)
  assume a: "passes_kws_to receiver_funcs keep passing_func st = (Inr r, st')"
  then have "passes_kws_to_func receiver_funcs keep passing_func st = (Inr r, st')"
    by (simp add: passes_kws_to_def)
  note fr = passes_kws_to_func_frame [OF this]
  from fr show "r = passing_func" by blast
  from fr show "classes st' = classes st" by blast
  from fr show "\<forall>x. map_option (\<lambda>obj. obj\<lparr>dunder_signature := None\<rparr>) (callables st' x) =
           map_option (\<lambda>obj. obj\<lparr>dunder_signature := None\<rparr>) (callables st x)" by blast
  from fr show "\<exists>obj s. callables st passing_func = Some obj \<and>
               callables st' passing_func = Some (obj\<lparr>dunder_signature := Some s\<rparr>)" by blast
next
  assume a: "super_init_pass_on_kws (Some func) super_base keep st = (Inr d, st')"
  from super_init_pass_on_kws_Some [OF a] obtain r where
    f: "super_init_func super_base keep func st = (Inr r, st')" and d: "d = Decorated r"
    by blast
  note fr = super_init_func_frame [OF f]
  from fr d show "d = Decorated func" by blast
  from fr show "classes st' = classes st" by blast
  from fr show "\<forall>x. map_option (\<lambda>obj. obj\<lparr>dunder_signature := None\<rparr>) (callables st' x) =
           map_option (\<lambda>obj. obj\<lparr>dunder_signature := None\<rparr>) (callables st x)" by blast
  from fr show "\<exists>from_func obj s. getattr_init st func = Inr from_func \<and>
               callables st from_func = Some obj \<and>
               callables st' from_func = Some (obj\<lparr>dunder_signature := Some s\<rparr>)" by blast
next
  assume f: "super_init_func super_base keep func st = (Inr c, st')"
  note fr = super_init_func_frame [OF f]
  from fr show "c = func" by blast
  from fr show "classes st' = classes st" by blast
  from fr show "\<forall>x. map_option (\<lambda>obj. obj\<lparr>dunder_signature := None\<rparr>) (callables st' x) =
           map_option (\<lambda>obj. obj\<lparr>dunder_signature := None\<rparr>) (callables st x)" by blast
  from fr show "\<exists>from_func obj s. getattr_init st func = Inr from_func \<and>
               callables st from_func = Some obj \<and>
               callables st' from_func = Some (obj\<lparr>dunder_signature := Some s\<rparr>)" by blast
qed

theorem decoration_changes_only_signature_witness:
  "classes (snd (passes_kws_to [1] True 0 f_g_state)) = classes f_g_state \<and>
   (\<forall>x. map_option (\<lambda>obj. obj\<lparr>dunder_signature := None\<rparr>)
          (callables (snd (passes_kws_to [1] True 0 f_g_state)) x) =
        map_option (\<lambda>obj. obj\<lparr>dunder_signature := None\<rparr>) (callables f_g_state x)) \<and>
   (\<exists>obj s. callables f_g_state 0 = Some obj \<and>
            callables (snd (passes_kws_to [1] True 0 f_g_state)) 0 =
              Some (obj\<lparr>dunder_signature := Some s\<rparr>)) \<and>
   classes (snd (super_init_pass_on_kws (Some 2) (Some 1) False sub_base_state)) =
     classes sub_base_state \<and>
   (\<exists>from_func obj s. getattr_init sub_base_state 2 = Inr from_func \<and>
            callables sub_base_state from_func = Some obj \<and>
            callables (snd (super_init_pass_on_kws (Some 2) (Some 1) False sub_base_state)) from_func =
              Some (obj\<lparr>dunder_signature := Some s\<rparr>)) \<and>
   classes (snd (super_init_func (Some 1) False 2 sub_base_state)) = classes sub_base_state"
proof -
  have h1: "passes_kws_to [1] True 0 f_g_state =
              (Inr 0, snd (passes_kws_to [1] True 0 f_g_state))"
    by (simp add: prod_eq_iff) (simp add: model_defs f_g_state_def)
  have h2: "super_init_pass_on_kws (Some 2) (Some 1) False sub_base_state =
              (Inr (Decorated 2), snd (super_init_pass_on_kws (Some 2) (Some 1) False sub_base_state))"
    by (simp add: prod_eq_iff) (simp add: model_defs sub_base_state_def)
  have h3: "super_init_func (Some 1) False 2 sub_base_state =
              (Inr 2, snd (super_init_func (Some 1) False 2 sub_base_state))"
    by (simp add: prod_eq_iff) (simp add: model_defs sub_base_state_def)
  from decoration_changes_only_signature
         [where receiver_funcs = "[1]" and keep = True and passing_func = 0 and st = f_g_state
            and r = 0 and st' = "snd (passes_kws_to [1] True 0 f_g_state)"] h1
  have c1: "classes (snd (passes_kws_to [1] True 0 f_g_state)) = classes f_g_state \<and>
   (\<forall>x. map_option (\<lambda>obj. obj\<lparr>dunder_signature := None\<rparr>)
          (callables (snd (passes_kws_to [1] True 0 f_g_state)) x) =
        map_option (\<lambda>obj. obj\<lparr>dunder_signature := None\<rparr>) (callables f_g_state x)) \<and>
   (\<exists>obj s. callables f_g_state 0 = Some obj \<and>
            callables (snd (passes_kws_to [1] True 0 f_g_state)) 0 =
              Some (obj\<lparr>dunder_signature := Some s\<rparr>))"
    by blast
  from decoration_changes_only_signature
         [where st = sub_base_state and func = 2 and super_base = "Some 1" and keep = False
            and d = "Decorated 2"
            and st' = "snd (super_init_pass_on_kws (Some 2) (Some 1) False sub_base_state)"] h2
  have c2: "classes (snd (super_init_pass_on_kws (Some 2) (Some 1) False sub_base_state)) =
     classes sub_base_state \<and>
   (\<exists>from_func obj s. getattr_init sub_base_state 2 = Inr from_func \<and>
            callables sub_base_state from_func = Some obj \<and>
            callables (snd (super_init_pass_on_kws (Some 2) (Some 1) False sub_base_state)) from_func =
              Some (obj\<lparr>dunder_signature := Some s\<rparr>))"
    by blast
  from decoration_changes_only_signature
         [where st = sub_base_state and func = 2 and super_base = "Some 1" and keep = False
            and c = 2 and st' = "snd (super_init_func (Some 1) False 2 sub_base_state)"] h3
  have c3: "classes (snd (super_init_func (Some 1) False 2 sub_base_state)) = classes sub_base_state"
    by blast
  from c1 c2 c3 show ?thesis by blast
qed

subsection \<open>What the constructor accepts\<close>

lemma validate_parameters_Inr:
  "validate_parameters t s acc ps = Inr r \<Longrightarrow> map Some r = map Some acc @ ps"
proof (induction ps arbitrary: t s acc)
  case Nil
  then show ?case by simp
next
  case (Cons x ps)
  show ?case
  proof (cases x)
    case None
    with Cons.prems show ?thesis by simp
  next
    case (Some p)
    with Cons.prems have
      "validate_parameters
         (if kind_value t < kind_value (kind p) then kind p else t)
         (s \<or> (is_positional (kind p) \<and> default_val p \<noteq> None))
         (acc @ [p]) ps = Inr r"
      by (simp split: if_splits)
    from Cons.IH [OF this] Some show ?thesis by simp
  qed
qed

lemma validate_parameters_distinct:
  "validate_parameters t s acc ps = Inr r \<Longrightarrow> distinct (map name acc) \<Longrightarrow>
     distinct (map name r)"
proof (induction ps arbitrary: t s acc)
  case Nil
  then show ?case by simp
next
  case (Cons x ps)
  show ?case
  proof (cases x)
    case None
    with Cons.prems show ?thesis by simp
  next
    case (Some p)
    with Cons.prems(1) have fresh: "name p \<notin> set (map name acc)" and
      rec: "validate_parameters
         (if kind_value t < kind_value (kind p) then kind p else t)
         (s \<or> (is_positional (kind p) \<and> default_val p \<noteq> None))
         (acc @ [p]) ps = Inr r"
      by (simp_all split: if_splits)
    have "distinct (map name (acc @ [p]))"
      using Cons.prems(2) fresh by simp
    from Cons.IH [OF rec this] show ?thesis .
  qed
qed

lemma Signature_replace_Inr:
  assumes "Signature_replace s ps = Inr s'"
  shows "map Some (parameters s') = ps \<and> distinct (map name (parameters s')) \<and>
         return_annotation s' = return_annotation s"
proof -
  from assms obtain r where v: "validate_parameters POSITIONAL_ONLY False [] ps = Inr r"
    and s': "s' = \<lparr>parameters = r, return_annotation = return_annotation s\<rparr>"
    by (auto simp: Signature_replace_def Signature_init_def split: sum.splits)
  from validate_parameters_Inr [OF v] validate_parameters_distinct [OF v] s'
  show ?thesis by simp
qed

lemma kind_value_le_3: "kind_value k \<le> 3 \<longleftrightarrow> k \<noteq> VAR_KEYWORD"
  by (cases k) simp_all

lemma validate_parameters_step:
  assumes "\<not> kind_value (kind p) < kind_value t"
    and "\<not> (is_positional (kind p) \<and> default_val p = None \<and> s)"
    and "name p \<notin> set (map name acc)"
  shows "validate_parameters t s acc (Some p # rest) =
           validate_parameters (if kind_value t < kind_value (kind p) then kind p else t)
             (s \<or> (is_positional (kind p) \<and> default_val p \<noteq> None)) (acc @ [p]) rest"
  by (simp only: validate_parameters.simps assms if_False)

lemma validate_keyword_tail:
  assumes "kind_value t \<le> 3" "\<forall>q \<in> set sel. kind q = KEYWORD_ONLY" "kind vk = VAR_KEYWORD"
    and "distinct (map name (acc @ sel @ [vk]))"
  shows "validate_parameters t s acc (map Some (sel @ [vk])) = Inr (acc @ sel @ [vk])"
  using assms
proof (induction sel arbitrary: t s acc)
  case Nil
  then show ?case by (simp add: is_positional_def)
next
  case (Cons q sel)
  have q: "kind q = KEYWORD_ONLY" using Cons.prems(2) by simp
  have t': "kind_value (if kind_value t < kind_value (kind q) then kind q else t) \<le> 3"
    using Cons.prems(1) q by simp
  have d: "distinct (map name ((acc @ [q]) @ sel @ [vk]))"
    using Cons.prems(4) by simp
  have rest: "\<forall>q \<in> set sel. kind q = KEYWORD_ONLY"
    using Cons.prems(2) by simp
  have fresh: "name q \<notin> set (map name acc)"
    using Cons.prems(4) by auto
  have nlt: "\<not> kind_value (kind q) < kind_value t"
    using Cons.prems(1) q by simp
  have "validate_parameters t s acc (map Some ((q # sel) @ [vk])) =
          validate_parameters (if kind_value t < kind_value (kind q) then kind q else t)
            (s \<or> (is_positional (kind q) \<and> default_val q \<noteq> None)) (acc @ [q])
            (map Some (sel @ [vk]))"
    using nlt fresh q by (simp add: is_positional_def)
  also have "\<dots> = Inr ((acc @ [q]) @ sel @ [vk])"
    using t' rest Cons.prems(3) d by (rule Cons.IH)
  finally show ?case by simp
qed

lemma validate_insert_keywords:
  assumes "validate_parameters t s acc (map Some (pre @ [vk])) = Inr r"
    and "kind_value t \<le> 3" "\<forall>q \<in> set pre. kind q \<noteq> VAR_KEYWORD"
    and "\<forall>q \<in> set sel. kind q = KEYWORD_ONLY" "kind vk = VAR_KEYWORD"
    and "distinct (map name (acc @ pre @ sel @ [vk]))"
  shows "validate_parameters t s acc (map Some (pre @ sel @ [vk])) = Inr (acc @ pre @ sel @ [vk])"
  using assms
proof (induction pre arbitrary: t s acc)
  case Nil
  then show ?case using validate_keyword_tail [of t sel vk acc s] by simp
next
  case (Cons p pre)
  let ?t = "if kind_value t < kind_value (kind p) then kind p else t"
  let ?s = "s \<or> (is_positional (kind p) \<and> default_val p \<noteq> None)"
  from Cons.prems(1) have ok1: "\<not> kind_value (kind p) < kind_value t"
    and ok2: "\<not> (is_positional (kind p) \<and> default_val p = None \<and> s)"
    and ok3: "name p \<notin> set (map name acc)"
    and rec: "validate_parameters ?t ?s (acc @ [p]) (map Some (pre @ [vk])) = Inr r"
    by (auto split: if_splits)
  have t': "kind_value ?t \<le> 3"
    using Cons.prems(2,3) by (simp add: kind_value_le_3)
  have pre': "\<forall>q \<in> set pre. kind q \<noteq> VAR_KEYWORD"
    using Cons.prems(3) by simp
  have d: "distinct (map name ((acc @ [p]) @ pre @ sel @ [vk]))"
    using Cons.prems(6) by simp
  have "validate_parameters t s acc (map Some ((p # pre) @ sel @ [vk])) =
          validate_parameters ?t ?s (acc @ [p]) (map Some (pre @ sel @ [vk]))"
    using validate_parameters_step [OF ok1 ok2 ok3] by simp
  also have "\<dots> = Inr ((acc @ [p]) @ pre @ sel @ [vk])"
    using rec t' pre' Cons.prems(4,5) d by (rule Cons.IH)
  finally show ?case by simp
qed

subsection \<open>One round of the loop\<close>

lemma passes_kws_to_loop_single:
  assumes "inspect_signature st r = Inr rs"
  shows "fst (passes_kws_to_loop [r] keep ps st) =
           Signature_replace ps (dict_values (new_params_of ps rs keep)) \<and>
         snd (passes_kws_to_loop [r] keep ps st) = snd (eval_sig_kw_params ps r keep st)"
proof -
  obtain st1 where ev: "eval_sig_kw_params ps r keep st = (Inr (ps, new_params_of ps rs keep), st1)"
    using eval_sig_kw_params_pair [OF assms] by blast
  show ?thesis
    by (simp only: passes_kws_to_loop_step [OF ev])
       (simp add: ev split: sum.splits)
qed

lemma passes_kws_to_loop_append:
  "passes_kws_to_loop (xs @ ys) keep ps st =
     (case passes_kws_to_loop xs keep ps st of
        (Inl e, st1) \<Rightarrow> (Inl e, st1)
      | (Inr ps1, st1) \<Rightarrow> passes_kws_to_loop ys keep ps1 st1)"
  by (induction xs arbitrary: ps st) (auto split: prod.splits sum.splits)

subsection \<open>Counting the merged parameters\<close>

lemma length_filter_key:
  "distinct (map fst d) \<Longrightarrow> k \<in> set (map fst d) \<Longrightarrow>
     Suc (length (filter (\<lambda>kv. fst kv \<noteq> k) d)) = length d"
proof (induction d)
  case Nil
  then show ?case by simp
next
  case (Cons kv d)
  show ?case
  proof (cases "fst kv = k")
    case True
    with Cons.prems(1) have "k \<notin> fst ` set d"
      by simp
    then have "\<forall>x \<in> set d. fst x \<noteq> k"
      by blast
    then have "filter (\<lambda>kv. fst kv \<noteq> k) d = d"
      by (simp add: filter_id_conv)
    with True show ?thesis by simp
  next
    case False
    with Cons show ?thesis by simp
  qed
qed

lemma working_params_keys_subset:
  "distinct (map name (parameters ps)) \<Longrightarrow>
     set (map fst (working_params ps)) \<subseteq> set (map name (parameters ps))"
  by (auto simp: working_params_distinct sig_items_def)

lemma length_working_params:
  assumes "distinct (map name (parameters ps))"
  shows "length (working_params ps) =
           length (parameters ps) - (if \<exists>p \<in> set (parameters ps). kind p = VAR_KEYWORD then 1 else 0)"
proof (cases "find_var_kw_key (sig_items ps)")
  case None
  then have "\<forall>p \<in> set (parameters ps). kind p \<noteq> VAR_KEYWORD"
    by (auto simp: find_var_kw_key_None sig_items_def)
  moreover have "working_params ps = sig_items ps"
    by (simp add: working_params_distinct [OF assms] None)
  ultimately show ?thesis by (simp add: sig_items_def)
next
  case (Some k)
  from find_var_kw_key_Some [OF Some] obtain v where v: "(k, v) \<in> set (sig_items ps)"
    "kind v = VAR_KEYWORD" by blast
  then have ex: "\<exists>p \<in> set (parameters ps). kind p = VAR_KEYWORD"
    by (auto simp: sig_items_def)
  have k: "k \<in> set (map fst (sig_items ps))"
    using v(1) by force
  have d: "distinct (map fst (sig_items ps))"
    using assms by (simp add: sig_items_keys)
  have "Suc (length (working_params ps)) = length (sig_items ps)"
    using length_filter_key [OF d k] by (simp add: working_params_distinct [OF assms] Some)
  with ex show ?thesis by (simp add: sig_items_def)
qed

lemma length_selected:
  assumes "distinct (map name (parameters ps))"
    and "set (map name (parameters ps)) \<inter> set (map name (parameters rs)) = {}"
  shows "length (filter (selected (working_params ps)) (sig_items rs)) =
           length (filter (\<lambda>p. default_val p \<noteq> None) (parameters rs))"
proof -
  have "selected (working_params ps) (name p, p) \<longleftrightarrow> default_val p \<noteq> None"
    if "p \<in> set (parameters rs)" for p
  proof -
    have "name p \<in> set (map name (parameters rs))"
      using that by simp
    with assms(2) have "name p \<notin> set (map name (parameters ps))"
      by blast
    with working_params_keys_subset [OF assms(1)]
    have "name p \<notin> set (map fst (working_params ps))"
      by blast
    then show ?thesis
      by (simp add: selected_def dict_contains_def)
  qed
  then have "filter (\<lambda>p. selected (working_params ps) (name p, p)) (parameters rs) =
               filter (\<lambda>p. default_val p \<noteq> None) (parameters rs)"
    by (auto intro: filter_cong)
  then show ?thesis
    by (simp add: sig_items_def filter_map comp_def)
qed

lemma length_new_params_of:
  assumes dp: "distinct (map name (parameters ps))"
    and dr: "distinct (map name (parameters rs))"
    and dj: "set (map name (parameters ps)) \<inter> set (map name (parameters rs)) = {}"
    and kv: "keep \<longrightarrow> (\<exists>p \<in> set (parameters ps). kind p = VAR_KEYWORD)"
  shows "length (new_params_of ps rs keep) =
           length (parameters ps) + length (filter (\<lambda>p. default_val p \<noteq> None) (parameters rs))
           - (if \<not> keep \<and> (\<exists>p \<in> set (parameters ps). kind p = VAR_KEYWORD) then 1 else 0)"
proof -
  let ?wp = "working_params ps"
  let ?tp = "map (\<lambda>kv. (fst kv, to_keyword_only (snd kv))) (filter (selected ?wp) (sig_items rs))"
  let ?merged = "map (\<lambda>kv. (Some (fst kv), Some (snd kv))) (?wp @ ?tp)"
  let ?nd = "length (filter (\<lambda>p. default_val p \<noteq> None) (parameters rs))"
  have m: "dict_update ?wp (to_params_of ?wp (sig_items rs)) = ?wp @ ?tp"
    using dp dr by (rule merged_distinct)
  have lm: "length ?merged =
              length (parameters ps) - (if \<exists>p \<in> set (parameters ps). kind p = VAR_KEYWORD then 1 else 0) + ?nd"
    by (simp add: length_working_params [OF dp] length_selected [OF dp dj])
  have ge: "(\<exists>p \<in> set (parameters ps). kind p = VAR_KEYWORD) \<Longrightarrow> 1 \<le> length (parameters ps)"
    by (cases "parameters ps") auto
  show ?thesis
  proof (cases keep)
    case False
    then have "length (new_params_of ps rs keep) = length ?merged"
      by (simp add: new_params_of_def Let_def m)
    with lm False ge show ?thesis
      by (cases "\<exists>p \<in> set (parameters ps). kind p = VAR_KEYWORD") simp_all
  next
    case True
    with kv have ex: "\<exists>p \<in> set (parameters ps). kind p = VAR_KEYWORD" by simp
    then obtain k where k: "find_var_kw_key (sig_items ps) = Some k"
      by (cases "find_var_kw_key (sig_items ps)") (auto simp: find_var_kw_key_None sig_items_def)
    from find_var_kw_key_Some [OF k] have kin: "k \<in> set (map name (parameters ps))"
      by (force simp: sig_items_def)
    have "k \<notin> set (map fst ?wp)"
      by (auto simp: working_params_distinct [OF dp] k)
    moreover have "k \<notin> set (map fst ?tp)"
      using kin dj by (auto simp: sig_items_def)
    ultimately have "Some k \<notin> set (map fst ?merged)"
      by auto
    then have "dict_set (Some k) v ?merged = ?merged @ [(Some k, v)]" for v
      by (rule dict_set_new)
    then have "length (new_params_of ps rs keep) = Suc (length ?merged)"
      using True k dp by (simp add: new_params_of_def Let_def m dict_of_sig_items)
    then show ?thesis using lm True ex ge by simp
  qed
qed

text \<open>
  C5, as amended. For a passing callable and a receiver with no parameter name in common,
  a decoration by \<^verbatim>\<open>passes_kws_to\<close> that succeeds leaves a signature with as many
  parameters as the passing callable had, plus the receiver's parameters that have a
  default, less one when the passing callable has a variadic-keyword parameter and
  \<^verbatim>\<open>keep_from_var_kw\<close> is false, since line 37 removed that parameter.
\<close>

theorem merged_parameter_count:
  assumes "passes_kws_to [receiver_func] keep passing_func st = (Inr r, st')"
    and "inspect_signature st passing_func = Inr passing_sig"
    and "inspect_signature st receiver_func = Inr receiver_sig"
    and "distinct (map name (parameters passing_sig))"
    and "distinct (map name (parameters receiver_sig))"
    and "set (map name (parameters passing_sig)) \<inter> set (map name (parameters receiver_sig)) = {}"
  shows "\<exists>merged. inspect_signature st' passing_func = Inr merged \<and>
           length (parameters merged) =
             length (parameters passing_sig) +
             length (filter (\<lambda>p. default_val p \<noteq> None) (parameters receiver_sig)) -
             (if \<not> keep \<and> (\<exists>p \<in> set (parameters passing_sig). kind p = VAR_KEYWORD)
              then 1 else 0)"
proof -
  let ?new = "new_params_of passing_sig receiver_sig keep"
  obtain res1 st1 where lp: "passes_kws_to_loop [receiver_func] keep passing_sig st = (res1, st1)"
    by (cases "passes_kws_to_loop [receiver_func] keep passing_sig st")
  from assms(1,2) lp obtain merged where res1: "res1 = Inr merged"
    and set: "set_dunder_signature passing_func merged st1 = Inr st'"
    by (cases res1) (auto simp: passes_kws_to_def passes_kws_to_func_def split: sum.splits)
  have rep: "Signature_replace passing_sig (dict_values ?new) = Inr merged"
    using passes_kws_to_loop_single [OF assms(3), of keep passing_sig] lp res1 by simp
  from Signature_replace_Inr [OF rep] have vals: "map Some (parameters merged) = dict_values ?new"
    by simp
  then have "length (map Some (parameters merged)) = length (dict_values ?new)"
    by simp
  then have len: "length (parameters merged) = length ?new"
    by (simp add: dict_values_def)
  have kv: "keep \<longrightarrow> (\<exists>p \<in> set (parameters passing_sig). kind p = VAR_KEYWORD)"
  proof
    assume keep
    show "\<exists>p \<in> set (parameters passing_sig). kind p = VAR_KEYWORD"
    proof (rule ccontr)
      assume "\<not> (\<exists>p \<in> set (parameters passing_sig). kind p = VAR_KEYWORD)"
      then have "\<forall>p \<in> set (parameters passing_sig). kind p \<noteq> VAR_KEYWORD" by simp
      from new_params_of_no_var_kw [OF this, of receiver_sig] \<open>keep\<close>
      have "None \<in> set (dict_values ?new)"
        by (simp add: dict_values_def)
      from Signature_replace_None [OF this, of passing_sig] rep show False by simp
    qed
  qed
  from set_dunder_signature_Inr [OF set] have "inspect_signature st' passing_func = Inr merged"
    by (auto simp: inspect_signature_def)
  with len length_new_params_of [OF assms(4,5,6) kv] show ?thesis by simp
qed

theorem merged_parameter_count_witness:
  "\<exists>merged. inspect_signature (snd (passes_kws_to [1] False 0 disjoint_names_state)) 0 = Inr merged \<and>
     length (parameters merged) = 2"
proof -
  let ?ps = "signature_of [param ''a'' POSITIONAL_OR_KEYWORD None, param ''kwargs'' VAR_KEYWORD None]"
  let ?rs = "signature_of [param ''b'' POSITIONAL_OR_KEYWORD (Some (PyInt 1))]"
  have h1: "passes_kws_to [1] False 0 disjoint_names_state =
              (Inr 0, snd (passes_kws_to [1] False 0 disjoint_names_state))"
    by (simp add: prod_eq_iff) (simp add: model_defs disjoint_names_state_def)
  have h2: "inspect_signature disjoint_names_state 0 = Inr ?ps"
    by (simp add: model_defs disjoint_names_state_def)
  have h3: "inspect_signature disjoint_names_state 1 = Inr ?rs"
    by (simp add: model_defs disjoint_names_state_def)
  have h4: "distinct (map name (parameters ?ps))"
    by (simp add: signature_of_def param_def)
  have h5: "distinct (map name (parameters ?rs))"
    by (simp add: signature_of_def param_def)
  have h6: "set (map name (parameters ?ps)) \<inter> set (map name (parameters ?rs)) = {}"
    by (simp add: signature_of_def param_def)
  show ?thesis
    using merged_parameter_count [OF h1 h2 h3 h4 h5 h6]
    by (simp add: signature_of_def param_def numeral_2_eq_2)
qed

text \<open>
  C5 as stated fails: \<^verbatim>\<open>f(a, **kwargs)\<close> has two parameters and \<^verbatim>\<open>g(b=1)\<close> has
  one with a default, no name in common, and the merged signature \<^verbatim>\<open>(a, *, b=1)\<close>
  has two parameters, not three.
\<close>

theorem merged_parameter_count_not_sum:
  "inspect_signature disjoint_names_state 0 =
     Inr (signature_of [param ''a'' POSITIONAL_OR_KEYWORD None, param ''kwargs'' VAR_KEYWORD None]) \<and>
   inspect_signature disjoint_names_state 1 =
     Inr (signature_of [param ''b'' POSITIONAL_OR_KEYWORD (Some (PyInt 1))]) \<and>
   fst (passes_kws_to [1] False 0 disjoint_names_state) = Inr 0 \<and>
   inspect_signature (snd (passes_kws_to [1] False 0 disjoint_names_state)) 0 =
     Inr (signature_of [param ''a'' POSITIONAL_OR_KEYWORD None,
                        param ''b'' KEYWORD_ONLY (Some (PyInt 1))]) \<and>
   length [param ''a'' POSITIONAL_OR_KEYWORD None, param ''b'' KEYWORD_ONLY (Some (PyInt 1))] \<noteq>
     length [param ''a'' POSITIONAL_OR_KEYWORD None, param ''kwargs'' VAR_KEYWORD None] +
     length (filter (\<lambda>p. default_val p \<noteq> None) [param ''b'' POSITIONAL_OR_KEYWORD (Some (PyInt 1))])"
  by (simp add: model_defs disjoint_names_state_def)

subsection \<open>Keeping the variadic-keyword parameter\<close>

lemma passes_kws_to_func_unfold:
  assumes "inspect_signature st f = Inr ps"
    and "passes_kws_to_loop rs keep ps st = (res, st1)"
  shows "passes_kws_to_func rs keep f st =
           (case res of
              Inl e \<Rightarrow> (Inl e, st1)
            | Inr ps1 \<Rightarrow>
                (case set_dunder_signature f ps1 st1 of
                   Inl e \<Rightarrow> (Inl e, st1)
                 | Inr st2 \<Rightarrow> (Inr f, st2)))"
  using assms by (simp add: passes_kws_to_func_def split: sum.splits)

lemma set_dunder_signature_warnings:
  "set_dunder_signature f s st = Inr st' \<Longrightarrow> warnings st' = warnings st"
  by (auto dest!: set_dunder_signature_Inr)

lemma passes_kws_to_func_warnings:
  assumes "inspect_signature st f = Inr ps"
  shows "warnings (snd (passes_kws_to_func rs keep f st)) =
           warnings (snd (passes_kws_to_loop rs keep ps st))"
proof -
  obtain res st1 where lp: "passes_kws_to_loop rs keep ps st = (res, st1)"
    by (cases "passes_kws_to_loop rs keep ps st")
  show ?thesis
    unfolding passes_kws_to_func_unfold [OF assms lp] lp
    by (auto split: sum.splits dest: set_dunder_signature_warnings)
qed

lemma eval_sig_kw_params_warnings:
  assumes "inspect_signature st r = Inr rs"
  shows "warnings (snd (eval_sig_kw_params ps r keep st)) =
           (if keep \<and> (\<forall>p \<in> set (parameters rs). kind p \<noteq> VAR_KEYWORD)
            then warnings st @ [r] else warnings st)"
  by (simp add: eval_sig_kw_params_state [OF assms] no_var_kw_receiver_after
      store_receiver_frame warning_def)

lemma single_receiver_warnings:
  assumes "inspect_signature st f = Inr ps" and "inspect_signature st r = Inr rs"
  shows "warnings (snd (passes_kws_to [r] keep f st)) =
           (if keep \<and> (\<forall>p \<in> set (parameters rs). kind p \<noteq> VAR_KEYWORD)
            then warnings st @ [r] else warnings st)"
proof -
  have "passes_kws_to [r] keep f st = passes_kws_to_func [r] keep f st"
    by (simp add: passes_kws_to_def)
  then have "warnings (snd (passes_kws_to [r] keep f st)) =
               warnings (snd (passes_kws_to_loop [r] keep ps st))"
    by (simp only: passes_kws_to_func_warnings [OF assms(1)])
  also have "snd (passes_kws_to_loop [r] keep ps st) = snd (eval_sig_kw_params ps r keep st)"
    using passes_kws_to_loop_single [OF assms(2)] by blast
  finally show ?thesis
    by (simp only: eval_sig_kw_params_warnings [OF assms(2)])
qed

lemma Signature_replace_valid:
  assumes "Signature_replace s (map Some (parameters s)) = Inr s"
  shows "validate_parameters POSITIONAL_ONLY False [] (map Some (parameters s)) =
           Inr (parameters s)"
proof -
  from assms obtain r where v: "validate_parameters POSITIONAL_ONLY False [] (map Some (parameters s)) = Inr r"
    by (auto simp: Signature_replace_def Signature_init_def split: sum.splits)
  from validate_parameters_Inr [OF v] have "map Some r = map Some (parameters s)"
    by simp
  then have "r = parameters s"
    by (simp add: inj_map_eq_map)
  with v show ?thesis by simp
qed

lemma new_params_of_keep_values:
  assumes par: "parameters ps = pre @ [vk]" and vk: "kind vk = VAR_KEYWORD"
    and pre: "\<forall>q \<in> set pre. kind q \<noteq> VAR_KEYWORD"
    and dp: "distinct (map name (parameters ps))"
    and dr: "distinct (map name (parameters rs))"
    and nm: "\<forall>p \<in> set (parameters rs). default_val p \<noteq> None \<longrightarrow> name p \<noteq> name vk"
  shows "dict_values (new_params_of ps rs True) =
           map Some (pre @
             map to_keyword_only
               (filter (\<lambda>p. default_val p \<noteq> None \<and> name p \<notin> set (map name pre)) (parameters rs))
             @ [vk])"
proof -
  let ?wp = "working_params ps"
  let ?sel = "filter (\<lambda>p. default_val p \<noteq> None \<and> name p \<notin> set (map name pre)) (parameters rs)"
  let ?tp = "map (\<lambda>kv. (fst kv, to_keyword_only (snd kv))) (filter (selected ?wp) (sig_items rs))"
  let ?merged = "map (\<lambda>kv. (Some (fst kv), Some (snd kv))) (?wp @ ?tp)"
  have uniq: "\<forall>q \<in> set (parameters ps). kind q = VAR_KEYWORD \<longrightarrow> q = vk"
    using par pre by auto
  have key: "find_var_kw_key (sig_items ps) = Some (name vk)"
    using find_var_kw_key_sig [OF _ vk uniq] par by simp
  have fresh: "name vk \<notin> set (map name pre)"
    using dp par by auto
  have "\<forall>q \<in> set pre. name q \<noteq> name vk"
    using fresh by (simp add: image_iff) metis
  then have "filter (\<lambda>kv. fst kv \<noteq> name vk) (map (\<lambda>p. (name p, p)) pre) = map (\<lambda>p. (name p, p)) pre"
    by (simp add: filter_id_conv)
  moreover have "?wp = filter (\<lambda>kv. Some (fst kv) \<noteq> Some (name vk)) (sig_items ps)"
    by (simp only: working_params_distinct [OF dp] key)
  moreover have "sig_items ps = map (\<lambda>p. (name p, p)) pre @ [(name vk, vk)]"
    by (simp add: sig_items_def par)
  ultimately have wp: "?wp = map (\<lambda>p. (name p, p)) pre"
    by simp
  have "selected ?wp (name p, p) \<longleftrightarrow> default_val p \<noteq> None \<and> name p \<notin> set (map name pre)" for p
    by (simp add: selected_def dict_contains_def wp comp_def)
  then have "filter (\<lambda>p. selected ?wp (name p, p)) (parameters rs) = ?sel"
    by simp
  then have tp: "?tp = map (\<lambda>p. (name p, to_keyword_only p)) ?sel"
    by (simp add: sig_items_def filter_map comp_def)
  have m: "dict_update ?wp (to_params_of ?wp (sig_items rs)) = ?wp @ ?tp"
    using dp dr by (rule merged_distinct)
  have "name vk \<notin> set (map fst ?wp)"
    using fresh by (simp add: wp comp_def)
  moreover have "name vk \<notin> set (map fst ?tp)"
    using nm by (auto simp: tp)
  ultimately have "Some (name vk) \<notin> set (map fst ?merged)"
    by auto
  then have set: "dict_set (Some (name vk)) v ?merged = ?merged @ [(Some (name vk), v)]" for v
    by (rule dict_set_new)
  have var: "var_kw_of (Some (name vk)) (sig_items ps) = Some vk"
    using var_kw_of_sig [OF dp] par by simp
  have "new_params_of ps rs True = dict_set (Some (name vk)) (Some vk) ?merged"
    unfolding new_params_of_def Let_def m dict_of_sig_items [OF dp] key var by simp
  also have "\<dots> = ?merged @ [(Some (name vk), Some vk)]"
    by (rule set)
  finally have np: "new_params_of ps rs True = ?merged @ [(Some (name vk), Some vk)]" .
  show ?thesis
    unfolding np tp by (simp add: dict_values_def wp comp_def)
qed

lemma keep_rebuild_succeeds:
  assumes par: "parameters ps = pre @ [vk]" and vk: "kind vk = VAR_KEYWORD"
    and pre: "\<forall>q \<in> set pre. kind q \<noteq> VAR_KEYWORD"
    and valid: "Signature_replace ps (map Some (parameters ps)) = Inr ps"
    and dr: "distinct (map name (parameters rs))"
    and kinds: "\<forall>p \<in> set (parameters rs). default_val p \<noteq> None \<longrightarrow>
                  (kind p = POSITIONAL_OR_KEYWORD \<or> kind p = KEYWORD_ONLY) \<and> name p \<noteq> name vk"
  shows "Signature_replace ps (dict_values (new_params_of ps rs True)) =
           Inr (ps\<lparr>parameters := pre @
             map to_keyword_only
               (filter (\<lambda>p. default_val p \<noteq> None \<and> name p \<notin> set (map name pre)) (parameters rs))
             @ [vk]\<rparr>)"
proof -
  let ?sel = "map to_keyword_only
               (filter (\<lambda>p. default_val p \<noteq> None \<and> name p \<notin> set (map name pre)) (parameters rs))"
  from Signature_replace_Inr [OF valid] have dp: "distinct (map name (parameters ps))"
    by simp
  have nm: "\<forall>p \<in> set (parameters rs). default_val p \<noteq> None \<longrightarrow> name p \<noteq> name vk"
    using kinds by blast
  have vals: "dict_values (new_params_of ps rs True) = map Some (pre @ ?sel @ [vk])"
    using par vk pre dp dr nm by (rule new_params_of_keep_values)
  have v0: "validate_parameters POSITIONAL_ONLY False [] (map Some (pre @ [vk])) = Inr (parameters ps)"
    using Signature_replace_valid [OF valid] par by simp
  have k: "\<forall>q \<in> set ?sel. kind q = KEYWORD_ONLY"
    using kinds by (auto simp: to_keyword_only_kind)
  have names_sel: "map name ?sel =
      map name (filter (\<lambda>p. default_val p \<noteq> None \<and> name p \<notin> set (map name pre)) (parameters rs))"
    by (simp add: comp_def)
  have d1: "distinct (map name ?sel)"
    unfolding names_sel using dr by (rule distinct_map_filter)
  have d2: "set (map name pre) \<inter> set (map name ?sel) = {}"
    unfolding names_sel by (fastforce simp: image_iff)
  have d3: "name vk \<notin> set (map name ?sel)"
    unfolding names_sel using nm by auto
  have d4: "distinct (map name pre)" "name vk \<notin> set (map name pre)"
    using dp par by auto
  have d: "distinct (map name ([] @ pre @ ?sel @ [vk]))"
    using d1 d2 d3 d4 by auto
  have "validate_parameters POSITIONAL_ONLY False [] (map Some (pre @ ?sel @ [vk])) =
          Inr ([] @ pre @ ?sel @ [vk])"
    using v0 _ pre k vk d by (rule validate_insert_keywords) simp
  then show ?thesis
    by (simp add: Signature_replace_def Signature_init_def vals)
qed

subsection \<open>What one merge keeps and what it adds\<close>

lemma dict_set_mem: "(k, v) \<in> set (dict_set k v d)"
  by (induction d) auto

lemma dict_set_other: "kv \<in> set d \<Longrightarrow> fst kv \<noteq> k \<Longrightarrow> kv \<in> set (dict_set k v d)"
  by (induction d) auto

lemma new_params_of_merged_mem:
  assumes dp: "distinct (map name (parameters ps))" and dr: "distinct (map name (parameters rs))"
    and mem: "(n, v) \<in> set (working_params ps) \<or>
              (\<exists>p \<in> set (parameters rs). selected (working_params ps) (name p, p) \<and>
                  n = name p \<and> v = to_keyword_only p)"
    and key: "keep \<longrightarrow> find_var_kw_key (sig_items ps) \<noteq> Some n"
  shows "(Some n, Some v) \<in> set (new_params_of ps rs keep)"
proof -
  let ?wp = "working_params ps"
  let ?tp = "map (\<lambda>kv. (fst kv, to_keyword_only (snd kv))) (filter (selected ?wp) (sig_items rs))"
  let ?merged = "map (\<lambda>kv. (Some (fst kv), Some (snd kv))) (?wp @ ?tp)"
  have m: "dict_update ?wp (to_params_of ?wp (sig_items rs)) = ?wp @ ?tp"
    using dp dr by (rule merged_distinct)
  have "(n, v) \<in> set (?wp @ ?tp)"
    using mem by (force simp: sig_items_def)
  then have in_m: "(Some n, Some v) \<in> set ?merged"
    by force
  show ?thesis
  proof (cases keep)
    case False
    then have "new_params_of ps rs keep = ?merged"
      by (simp add: new_params_of_def Let_def m)
    with in_m show ?thesis by simp
  next
    case True
    with key have ne: "fst (Some n, Some v) \<noteq> find_var_kw_key (sig_items ps)"
      by auto
    have "new_params_of ps rs keep =
            dict_set (find_var_kw_key (sig_items ps))
              (var_kw_of (find_var_kw_key (sig_items ps)) (sig_items ps)) ?merged"
      unfolding new_params_of_def Let_def m dict_of_sig_items [OF dp] using True by simp
    with dict_set_other [OF in_m ne] show ?thesis by simp
  qed
qed

lemma loop_single_values:
  assumes "passes_kws_to_loop [r] keep ps st = (Inr s', st')"
    and "inspect_signature st r = Inr rs"
  shows "map Some (parameters s') = dict_values (new_params_of ps rs keep) \<and>
         distinct (map name (parameters s'))"
proof -
  have "Signature_replace ps (dict_values (new_params_of ps rs keep)) = Inr s'"
    using passes_kws_to_loop_single [OF assms(2), of keep ps] assms(1) by simp
  from Signature_replace_Inr [OF this] show ?thesis by simp
qed

lemma values_mem:
  assumes "map Some xs = dict_values d" "(k, Some v) \<in> set d"
  shows "v \<in> set xs"
proof -
  have "Some v \<in> set (dict_values d)"
    using assms(2) by (force simp: dict_values_def)
  then have "Some v \<in> set (map Some xs)"
    by (simp only: assms(1))
  then show ?thesis by auto
qed

lemma merge_adds:
  assumes lp: "passes_kws_to_loop [r] keep ps st = (Inr s', st')"
    and rs: "inspect_signature st r = Inr rs"
    and dp: "distinct (map name (parameters ps))" and dr: "distinct (map name (parameters rs))"
    and p: "p \<in> set (parameters rs)" "default_val p \<noteq> None"
      "name p \<notin> set (map name (parameters ps))"
  shows "to_keyword_only p \<in> set (parameters s')"
proof -
  have "name p \<notin> set (map fst (working_params ps))"
    using working_params_keys_subset [OF dp] p(3) by blast
  then have sel: "selected (working_params ps) (name p, p)"
    using p(2) by (simp add: selected_def dict_contains_def)
  have key: "keep \<longrightarrow> find_var_kw_key (sig_items ps) \<noteq> Some (name p)"
  proof (intro impI notI)
    assume "find_var_kw_key (sig_items ps) = Some (name p)"
    from find_var_kw_key_Some [OF this] have "name p \<in> set (map name (parameters ps))"
      by (force simp: sig_items_def)
    with p(3) show False by simp
  qed
  have "(Some (name p), Some (to_keyword_only p)) \<in> set (new_params_of ps rs keep)"
    using dp dr _ key by (rule new_params_of_merged_mem) (use p(1) sel in blast)
  with loop_single_values [OF lp rs] show ?thesis
    by (blast intro: values_mem)
qed

lemma merge_keeps:
  assumes lp: "passes_kws_to_loop [r] keep ps st = (Inr s', st')"
    and rs: "inspect_signature st r = Inr rs"
    and dp: "distinct (map name (parameters ps))" and dr: "distinct (map name (parameters rs))"
    and q: "q \<in> set (parameters ps)" "keep \<or> kind q \<noteq> VAR_KEYWORD"
  shows "q \<in> set (parameters s')"
proof (cases "find_var_kw_key (sig_items ps) = Some (name q)")
  case True
  have qi: "(name q, q) \<in> set (sig_items ps)"
    using q(1) by (simp add: sig_items_def)
  from find_var_kw_key_Some [OF True] obtain v where
    v: "(name q, v) \<in> set (sig_items ps)" "kind v = VAR_KEYWORD" by blast
  have "distinct (map fst (sig_items ps))"
    using dp by (simp add: sig_items_keys)
  from map_of_distinct_mem [OF this v(1)] map_of_distinct_mem [OF this qi] have "v = q"
    by simp
  with v(2) q(2) have keep: keep by simp
  have var: "var_kw_of (Some (name q)) (sig_items ps) = Some q"
    using dp q(1) by (rule var_kw_of_sig)
  have "new_params_of ps rs keep =
          dict_set (Some (name q)) (Some q)
            (map (\<lambda>kv. (Some (fst kv), Some (snd kv)))
               (dict_update (working_params ps)
                  (to_params_of (working_params ps) (sig_items rs))))"
    unfolding new_params_of_def Let_def dict_of_sig_items [OF dp] True var using keep by simp
  then have "(Some (name q), Some q) \<in> set (new_params_of ps rs keep)"
    by (simp add: dict_set_mem)
  with loop_single_values [OF lp rs] show ?thesis
    by (blast intro: values_mem)
next
  case False
  then have "(name q, q) \<in> set (working_params ps)"
    using q(1) by (auto simp: working_params_distinct [OF dp] sig_items_def)
  then have "(Some (name q), Some q) \<in> set (new_params_of ps rs keep)"
    using False by (intro new_params_of_merged_mem [OF dp dr]) auto
  with loop_single_values [OF lp rs] show ?thesis
    by (blast intro: values_mem)
qed

lemma distinct_names_unique:
  "distinct (map name xs) \<Longrightarrow> q \<in> set xs \<Longrightarrow> p \<in> set xs \<Longrightarrow> name p = name q \<Longrightarrow> p = q"
  by (simp add: distinct_map inj_on_def)

subsection \<open>The class decorator runs the same merge\<close>

lemma super_init_func_receiver:
  "super_init_func super_base keep func st =
     (case super_init_receiver st super_base func of
        Inl e \<Rightarrow> (Inl e, st)
      | Inr to_func \<Rightarrow>
          (case getattr_init st func of
             Inl e \<Rightarrow> (Inl e, st)
           | Inr from_func \<Rightarrow>
               (case inspect_signature st from_func of
                  Inl e \<Rightarrow> (Inl e, st)
                | Inr from_sig \<Rightarrow>
                    (case eval_sig_kw_params from_sig to_func keep st of
                       (Inl e, st1) \<Rightarrow> (Inl e, st1)
                     | (Inr (from_signature, signature_parameters), st1) \<Rightarrow>
                         (case Signature_replace from_signature
                                 (dict_values signature_parameters) of
                            Inl e \<Rightarrow> (Inl e, st1)
                          | Inr new_sig \<Rightarrow>
                              (case set_dunder_signature from_func new_sig st1 of
                                 Inl e \<Rightarrow> (Inl e, st1)
                               | Inr st2 \<Rightarrow> (Inr func, st2)))))))"
  by (simp add: super_init_func_def super_init_receiver_def)

lemma super_init_func_unfold:
  assumes "super_init_receiver st super_base func = Inr to_func"
    and "getattr_init st func = Inr from_func"
    and "inspect_signature st from_func = Inr from_sig"
    and "passes_kws_to_loop [to_func] keep from_sig st = (res, st1)"
  shows "super_init_func super_base keep func st =
           (case res of
              Inl e \<Rightarrow> (Inl e, st1)
            | Inr new_sig \<Rightarrow>
                (case set_dunder_signature from_func new_sig st1 of
                   Inl e \<Rightarrow> (Inl e, st1)
                 | Inr st2 \<Rightarrow> (Inr func, st2)))"
proof -
  obtain r0 s0 where ev: "eval_sig_kw_params from_sig to_func keep st = (r0, s0)"
    by (cases "eval_sig_kw_params from_sig to_func keep st")
  show ?thesis
  proof (cases r0)
    case (Inl e)
    with assms(4) ev have "res = Inl e" "st1 = s0" by simp_all
    with assms(1,2,3) ev Inl show ?thesis
      by (simp add: super_init_func_receiver split: sum.splits)
  next
    case (Inr pr)
    obtain s1 new where pr: "pr = (s1, new)" by (cases pr)
    show ?thesis
    proof (cases "Signature_replace s1 (dict_values new)")
      case (Inl e)
      with assms(4) ev Inr pr have "res = Inl e" "st1 = s0" by simp_all
      with assms(1,2,3) ev Inr pr Inl show ?thesis
        by (simp add: super_init_func_receiver split: sum.splits)
    next
      case (Inr s2)
      with assms(4) ev \<open>r0 = Inr pr\<close> pr have "res = Inr s2" "st1 = s0" by simp_all
      with assms(1,2,3) ev \<open>r0 = Inr pr\<close> pr Inr show ?thesis
        by (simp add: super_init_func_receiver split: sum.splits)
    qed
  qed
qed

lemma super_init_pass_on_kws_class:
  "super_init_pass_on_kws (Some func) super_base keep st =
     (case fst (super_init_func super_base keep func st) of
        Inl e \<Rightarrow> Inl e
      | Inr r \<Rightarrow> Inr (Decorated r),
      snd (super_init_func super_base keep func st))"
  by (simp add: super_init_pass_on_kws_def split: prod.splits sum.splits)

lemma super_init_func_warnings:
  assumes "super_init_receiver st super_base func = Inr to_func"
    and "getattr_init st func = Inr from_func"
    and "inspect_signature st from_func = Inr from_sig"
  shows "warnings (snd (super_init_func super_base keep func st)) =
           warnings (snd (passes_kws_to_loop [to_func] keep from_sig st))"
proof -
  obtain res st1 where lp: "passes_kws_to_loop [to_func] keep from_sig st = (res, st1)"
    by (cases "passes_kws_to_loop [to_func] keep from_sig st")
  show ?thesis
    unfolding super_init_func_unfold [OF assms lp] lp
    by (auto split: sum.splits dest: set_dunder_signature_warnings)
qed

lemma keep_decoration_core:
  assumes ps: "inspect_signature st f = Inr ps" and rs: "inspect_signature st r = Inr rs"
    and obj: "callables st f = Some obj" "ctype obj = FunctionType"
    and par: "parameters ps = pre @ [vk]" and vk: "kind vk = VAR_KEYWORD"
    and pre: "\<forall>q \<in> set pre. kind q \<noteq> VAR_KEYWORD"
    and valid: "Signature_replace ps (map Some (parameters ps)) = Inr ps"
    and dr: "distinct (map name (parameters rs))"
    and kinds: "\<forall>p \<in> set (parameters rs). default_val p \<noteq> None \<longrightarrow>
                  (kind p = POSITIONAL_OR_KEYWORD \<or> kind p = KEYWORD_ONLY) \<and> name p \<noteq> name vk"
    and new: "new_sig = ps\<lparr>parameters := pre @
                   map to_keyword_only
                     (filter (\<lambda>p. default_val p \<noteq> None \<and> name p \<notin> set (map name pre))
                        (parameters rs))
                   @ [vk]\<rparr>"
  shows "\<exists>st1 st2. passes_kws_to_loop [r] True ps st = (Inr new_sig, st1) \<and>
           set_dunder_signature f new_sig st1 = Inr st2 \<and>
           inspect_signature st2 f = Inr new_sig"
proof -
  have rep: "Signature_replace ps (dict_values (new_params_of ps rs True)) = Inr new_sig"
    unfolding new using par vk pre valid dr kinds by (rule keep_rebuild_succeeds)
  obtain res st1 where lp: "passes_kws_to_loop [r] True ps st = (res, st1)"
    by (cases "passes_kws_to_loop [r] True ps st")
  have res: "res = Inr new_sig"
    using passes_kws_to_loop_single [OF rs, of True ps] lp rep by simp
  from passes_kws_to_loop_frame [OF lp, of f] obj(1)
  obtain obj1 where o1: "callables st1 f = Some obj1"
    and eq: "obj1\<lparr>dunder_signature := None\<rparr> = obj\<lparr>dunder_signature := None\<rparr>"
    by (cases "callables st1 f") auto
  from eq have "ctype (obj1\<lparr>dunder_signature := None\<rparr>) = ctype (obj\<lparr>dunder_signature := None\<rparr>)"
    by (rule arg_cong)
  then have ct: "ctype obj1 = FunctionType"
    using obj(2) by simp
  let ?st2 = "st1\<lparr>callables := (callables st1) (f \<mapsto> obj1\<lparr>dunder_signature := Some new_sig\<rparr>)\<rparr>"
  have set: "set_dunder_signature f new_sig st1 = Inr ?st2"
    by (simp add: set_dunder_signature_def o1 ct)
  have "inspect_signature ?st2 f = Inr new_sig"
    by (simp add: inspect_signature_def)
  with lp res set show ?thesis by blast
qed

text \<open>
  C6, as amended. A decoration with \<^verbatim>\<open>keep_from_var_kw\<close>, by \<^verbatim>\<open>passes_kws_to\<close>
  with one receiver or by \<^verbatim>\<open>super_init_pass_on_kws\<close> (on the class, or through the
  \<^verbatim>\<open>_func\<close> it returns), where the signatures of the passing callable (for a class, the
  \<^verbatim>\<open>__init__\<close> found on it) and of the receiver can be read and the receiver has no
  variadic-keyword parameter, logs exactly one warning, naming that receiver, whether or
  not the signature can be rebuilt afterwards. The decoration succeeds when, in addition,
  the passing callable is a Python function whose signature is one the constructor accepts
  and ends in its only variadic-keyword parameter, the receiver's parameter names are
  distinct, and every receiver parameter with a default is positional-or-keyword or
  keyword-only and not named like that parameter; the signature written then lists the
  passing callable's other parameters, the merged ones, and the variadic-keyword
  parameter last.
\<close>

theorem keep_warns_once:
  assumes "inspect_signature st passing_func = Inr passing_sig"
    and "inspect_signature st receiver_func = Inr receiver_sig"
    and "\<forall>p \<in> set (parameters receiver_sig). kind p \<noteq> VAR_KEYWORD"
  shows "warnings (snd (passes_kws_to [receiver_func] True passing_func st)) =
           warnings st @ [receiver_func] \<and>
         (super_init_receiver st super_base func = Inr receiver_func \<and>
          getattr_init st func = Inr passing_func \<longrightarrow>
            warnings (snd (super_init_func super_base True func st)) =
              warnings st @ [receiver_func] \<and>
            warnings (snd (super_init_pass_on_kws (Some func) super_base True st)) =
              warnings st @ [receiver_func]) \<and>
         ((\<exists>obj. callables st passing_func = Some obj \<and> ctype obj = FunctionType) \<and>
          parameters passing_sig = pre @ [vk] \<and> kind vk = VAR_KEYWORD \<and>
          (\<forall>q \<in> set pre. kind q \<noteq> VAR_KEYWORD) \<and>
          Signature_replace passing_sig (map Some (parameters passing_sig)) = Inr passing_sig \<and>
          distinct (map name (parameters receiver_sig)) \<and>
          (\<forall>p \<in> set (parameters receiver_sig). default_val p \<noteq> None \<longrightarrow>
             (kind p = POSITIONAL_OR_KEYWORD \<or> kind p = KEYWORD_ONLY) \<and> name p \<noteq> name vk)
          \<longrightarrow>
          fst (passes_kws_to [receiver_func] True passing_func st) = Inr passing_func \<and>
          inspect_signature (snd (passes_kws_to [receiver_func] True passing_func st)) passing_func =
            Inr (passing_sig\<lparr>parameters := pre @
                   map to_keyword_only
                     (filter (\<lambda>p. default_val p \<noteq> None \<and> name p \<notin> set (map name pre))
                        (parameters receiver_sig))
                   @ [vk]\<rparr>) \<and>
          (super_init_receiver st super_base func = Inr receiver_func \<and>
           getattr_init st func = Inr passing_func \<longrightarrow>
             fst (super_init_func super_base True func st) = Inr func \<and>
             fst (super_init_pass_on_kws (Some func) super_base True st) = Inr (Decorated func) \<and>
             inspect_signature (snd (super_init_pass_on_kws (Some func) super_base True st))
               passing_func =
               Inr (passing_sig\<lparr>parameters := pre @
                      map to_keyword_only
                        (filter (\<lambda>p. default_val p \<noteq> None \<and> name p \<notin> set (map name pre))
                           (parameters receiver_sig))
                      @ [vk]\<rparr>)))"
proof -
  let ?new_sig = "passing_sig\<lparr>parameters := pre @
                   map to_keyword_only
                     (filter (\<lambda>p. default_val p \<noteq> None \<and> name p \<notin> set (map name pre))
                        (parameters receiver_sig))
                   @ [vk]\<rparr>"
  let ?conds = "(\<exists>obj. callables st passing_func = Some obj \<and> ctype obj = FunctionType) \<and>
          parameters passing_sig = pre @ [vk] \<and> kind vk = VAR_KEYWORD \<and>
          (\<forall>q \<in> set pre. kind q \<noteq> VAR_KEYWORD) \<and>
          Signature_replace passing_sig (map Some (parameters passing_sig)) = Inr passing_sig \<and>
          distinct (map name (parameters receiver_sig)) \<and>
          (\<forall>p \<in> set (parameters receiver_sig). default_val p \<noteq> None \<longrightarrow>
             (kind p = POSITIONAL_OR_KEYWORD \<or> kind p = KEYWORD_ONLY) \<and> name p \<noteq> name vk)"
  let ?cls = "super_init_receiver st super_base func = Inr receiver_func \<and>
          getattr_init st func = Inr passing_func"
  have loop_w: "warnings (snd (passes_kws_to_loop [receiver_func] True passing_sig st)) =
                  warnings st @ [receiver_func]"
  proof -
    have "snd (passes_kws_to_loop [receiver_func] True passing_sig st) =
            snd (eval_sig_kw_params passing_sig receiver_func True st)"
      using passes_kws_to_loop_single [OF assms(2)] by blast
    then show ?thesis
      using assms(3) by (simp only: eval_sig_kw_params_warnings [OF assms(2)]) simp
  qed
  have w1: "warnings (snd (passes_kws_to [receiver_func] True passing_func st)) =
              warnings st @ [receiver_func]"
    using assms(3) by (simp add: single_receiver_warnings [OF assms(1,2)])
  have w2: "warnings (snd (super_init_func super_base True func st)) =
              warnings st @ [receiver_func] \<and>
            warnings (snd (super_init_pass_on_kws (Some func) super_base True st)) =
              warnings st @ [receiver_func]" if c: ?cls
  proof -
    from c have r: "super_init_receiver st super_base func = Inr receiver_func"
      and f: "getattr_init st func = Inr passing_func" by blast+
    have "warnings (snd (super_init_func super_base True func st)) = warnings st @ [receiver_func]"
      by (simp only: super_init_func_warnings [OF r f assms(1)] loop_w)
    then show ?thesis
      by (simp add: super_init_pass_on_kws_class)
  qed
  have s: "fst (passes_kws_to [receiver_func] True passing_func st) = Inr passing_func \<and>
          inspect_signature (snd (passes_kws_to [receiver_func] True passing_func st)) passing_func =
            Inr ?new_sig \<and>
          (?cls \<longrightarrow>
             fst (super_init_func super_base True func st) = Inr func \<and>
             fst (super_init_pass_on_kws (Some func) super_base True st) = Inr (Decorated func) \<and>
             inspect_signature (snd (super_init_pass_on_kws (Some func) super_base True st))
               passing_func = Inr ?new_sig)" if c: ?conds
  proof -
    from c obtain obj where obj: "callables st passing_func = Some obj" "ctype obj = FunctionType"
      by blast
    from c have par: "parameters passing_sig = pre @ [vk]" and vk: "kind vk = VAR_KEYWORD"
      and pre: "\<forall>q \<in> set pre. kind q \<noteq> VAR_KEYWORD"
      and valid: "Signature_replace passing_sig (map Some (parameters passing_sig)) = Inr passing_sig"
      and dr: "distinct (map name (parameters receiver_sig))"
      and kinds: "\<forall>p \<in> set (parameters receiver_sig). default_val p \<noteq> None \<longrightarrow>
             (kind p = POSITIONAL_OR_KEYWORD \<or> kind p = KEYWORD_ONLY) \<and> name p \<noteq> name vk"
      by blast+
    from keep_decoration_core [OF assms(1,2) obj par vk pre valid dr kinds refl]
    obtain st1 st2 where lp: "passes_kws_to_loop [receiver_func] True passing_sig st = (Inr ?new_sig, st1)"
      and set: "set_dunder_signature passing_func ?new_sig st1 = Inr st2"
      and ins: "inspect_signature st2 passing_func = Inr ?new_sig"
      by blast
    have "passes_kws_to [receiver_func] True passing_func st =
            passes_kws_to_func [receiver_func] True passing_func st"
      by (simp add: passes_kws_to_def)
    also have "\<dots> = (Inr passing_func, st2)"
      by (simp only: passes_kws_to_func_unfold [OF assms(1) lp] sum.case set)
    finally have run: "passes_kws_to [receiver_func] True passing_func st = (Inr passing_func, st2)" .
    have cls: "fst (super_init_func super_base True func st) = Inr func \<and>
             fst (super_init_pass_on_kws (Some func) super_base True st) = Inr (Decorated func) \<and>
             inspect_signature (snd (super_init_pass_on_kws (Some func) super_base True st))
               passing_func = Inr ?new_sig" if c2: ?cls
    proof -
      from c2 have r: "super_init_receiver st super_base func = Inr receiver_func"
        and f: "getattr_init st func = Inr passing_func" by blast+
      have "super_init_func super_base True func st = (Inr func, st2)"
        by (simp only: super_init_func_unfold [OF r f assms(1) lp] sum.case set)
      then show ?thesis
        by (simp add: super_init_pass_on_kws_class ins)
    qed
    from run ins cls show ?thesis by simp
  qed
  from w1 w2 s show ?thesis by blast
qed

theorem keep_warns_once_witness:
  "warnings (snd (passes_kws_to [1] True 0 f_g_state)) = warnings f_g_state @ [1] \<and>
   fst (passes_kws_to [1] True 0 f_g_state) = Inr 0 \<and>
   inspect_signature (snd (passes_kws_to [1] True 0 f_g_state)) 0 =
     Inr (signature_of
            [param ''a'' POSITIONAL_OR_KEYWORD None, param ''args'' VAR_POSITIONAL None,
             param ''b'' KEYWORD_ONLY (Some (PyInt 1)), param ''c'' KEYWORD_ONLY (Some (PyInt 2)),
             param ''kwargs'' VAR_KEYWORD None]) \<and>
   warnings (snd (super_init_pass_on_kws (Some 2) (Some 1) True sub_base_state)) =
     warnings sub_base_state @ [0] \<and>
   fst (super_init_pass_on_kws (Some 2) (Some 1) True sub_base_state) = Inr (Decorated 2) \<and>
   inspect_signature (snd (super_init_pass_on_kws (Some 2) (Some 1) True sub_base_state)) 1 =
     Inr (signature_of
            [param ''self'' POSITIONAL_OR_KEYWORD None, param ''x'' POSITIONAL_OR_KEYWORD None,
             param ''z'' POSITIONAL_OR_KEYWORD (Some (PyInt 2)),
             param ''y'' KEYWORD_ONLY (Some (PyInt 1)), param ''kwargs'' VAR_KEYWORD None])"
proof -
  let ?ps = "signature_of [param ''a'' POSITIONAL_OR_KEYWORD None, param ''args'' VAR_POSITIONAL None,
                           param ''kwargs'' VAR_KEYWORD None]"
  let ?rs = "signature_of [param ''a'' POSITIONAL_OR_KEYWORD None,
                           param ''b'' POSITIONAL_OR_KEYWORD (Some (PyInt 1)),
                           param ''c'' POSITIONAL_OR_KEYWORD (Some (PyInt 2))]"
  let ?pre = "[param ''a'' POSITIONAL_OR_KEYWORD None, param ''args'' VAR_POSITIONAL None]"
  let ?vk = "param ''kwargs'' VAR_KEYWORD None"
  have h1: "inspect_signature f_g_state 0 = Inr ?ps"
    by (simp add: model_defs f_g_state_def)
  have h2: "inspect_signature f_g_state 1 = Inr ?rs"
    by (simp add: model_defs f_g_state_def)
  have h3: "\<forall>p \<in> set (parameters ?rs). kind p \<noteq> VAR_KEYWORD"
    by (simp add: signature_of_def param_def)
  have c: "(\<exists>obj. callables f_g_state 0 = Some obj \<and> ctype obj = FunctionType) \<and>
          parameters ?ps = ?pre @ [?vk] \<and> kind ?vk = VAR_KEYWORD \<and>
          (\<forall>q \<in> set ?pre. kind q \<noteq> VAR_KEYWORD) \<and>
          Signature_replace ?ps (map Some (parameters ?ps)) = Inr ?ps \<and>
          distinct (map name (parameters ?rs)) \<and>
          (\<forall>p \<in> set (parameters ?rs). default_val p \<noteq> None \<longrightarrow>
             (kind p = POSITIONAL_OR_KEYWORD \<or> kind p = KEYWORD_ONLY) \<and> name p \<noteq> name ?vk)"
    by (simp add: model_defs f_g_state_def)
  have e: "?ps\<lparr>parameters := ?pre @
                   map to_keyword_only
                     (filter (\<lambda>p. default_val p \<noteq> None \<and> name p \<notin> set (map name ?pre))
                        (parameters ?rs))
                   @ [?vk]\<rparr> =
           signature_of
            [param ''a'' POSITIONAL_OR_KEYWORD None, param ''args'' VAR_POSITIONAL None,
             param ''b'' KEYWORD_ONLY (Some (PyInt 1)), param ''c'' KEYWORD_ONLY (Some (PyInt 2)),
             param ''kwargs'' VAR_KEYWORD None]"
    by (simp add: signature_of_def param_def to_keyword_only_def)
  from keep_warns_once [OF h1 h2 h3, of _ _ ?pre ?vk] c
  have part1: "warnings (snd (passes_kws_to [1] True 0 f_g_state)) = warnings f_g_state @ [1] \<and>
     fst (passes_kws_to [1] True 0 f_g_state) = Inr 0 \<and>
     inspect_signature (snd (passes_kws_to [1] True 0 f_g_state)) 0 =
       Inr (signature_of
            [param ''a'' POSITIONAL_OR_KEYWORD None, param ''args'' VAR_POSITIONAL None,
             param ''b'' KEYWORD_ONLY (Some (PyInt 1)), param ''c'' KEYWORD_ONLY (Some (PyInt 2)),
             param ''kwargs'' VAR_KEYWORD None])"
    unfolding e by blast
  let ?qs = "signature_of [param ''self'' POSITIONAL_OR_KEYWORD None,
                     param ''x'' POSITIONAL_OR_KEYWORD None,
                     param ''z'' POSITIONAL_OR_KEYWORD (Some (PyInt 2)),
                     param ''kwargs'' VAR_KEYWORD None]"
  let ?bs = "signature_of [param ''self'' POSITIONAL_OR_KEYWORD None,
                     param ''x'' POSITIONAL_OR_KEYWORD None,
                     param ''y'' POSITIONAL_OR_KEYWORD (Some (PyInt 1))]"
  let ?qpre = "[param ''self'' POSITIONAL_OR_KEYWORD None, param ''x'' POSITIONAL_OR_KEYWORD None,
                param ''z'' POSITIONAL_OR_KEYWORD (Some (PyInt 2))]"
  have k1: "inspect_signature sub_base_state 1 = Inr ?qs"
    by (simp add: model_defs sub_base_state_def)
  have k2: "inspect_signature sub_base_state 0 = Inr ?bs"
    by (simp add: model_defs sub_base_state_def)
  have k3: "\<forall>p \<in> set (parameters ?bs). kind p \<noteq> VAR_KEYWORD"
    by (simp add: signature_of_def param_def)
  have cls: "super_init_receiver sub_base_state (Some 1) 2 = Inr 0 \<and>
             getattr_init sub_base_state 2 = Inr 1"
    by (simp add: model_defs super_init_receiver_def sub_base_state_def)
  have c': "(\<exists>obj. callables sub_base_state 1 = Some obj \<and> ctype obj = FunctionType) \<and>
          parameters ?qs = ?qpre @ [?vk] \<and> kind ?vk = VAR_KEYWORD \<and>
          (\<forall>q \<in> set ?qpre. kind q \<noteq> VAR_KEYWORD) \<and>
          Signature_replace ?qs (map Some (parameters ?qs)) = Inr ?qs \<and>
          distinct (map name (parameters ?bs)) \<and>
          (\<forall>p \<in> set (parameters ?bs). default_val p \<noteq> None \<longrightarrow>
             (kind p = POSITIONAL_OR_KEYWORD \<or> kind p = KEYWORD_ONLY) \<and> name p \<noteq> name ?vk)"
    by (simp add: model_defs sub_base_state_def)
  have e': "?qs\<lparr>parameters := ?qpre @
                   map to_keyword_only
                     (filter (\<lambda>p. default_val p \<noteq> None \<and> name p \<notin> set (map name ?qpre))
                        (parameters ?bs))
                   @ [?vk]\<rparr> =
           signature_of
            [param ''self'' POSITIONAL_OR_KEYWORD None, param ''x'' POSITIONAL_OR_KEYWORD None,
             param ''z'' POSITIONAL_OR_KEYWORD (Some (PyInt 2)),
             param ''y'' KEYWORD_ONLY (Some (PyInt 1)), param ''kwargs'' VAR_KEYWORD None]"
    by (simp add: signature_of_def param_def to_keyword_only_def)
  from keep_warns_once [OF k1 k2 k3, of "Some 1" 2 ?qpre ?vk] cls c'
  have part2: "warnings (snd (super_init_pass_on_kws (Some 2) (Some 1) True sub_base_state)) =
       warnings sub_base_state @ [0] \<and>
     fst (super_init_pass_on_kws (Some 2) (Some 1) True sub_base_state) = Inr (Decorated 2) \<and>
     inspect_signature (snd (super_init_pass_on_kws (Some 2) (Some 1) True sub_base_state)) 1 =
       Inr (signature_of
            [param ''self'' POSITIONAL_OR_KEYWORD None, param ''x'' POSITIONAL_OR_KEYWORD None,
             param ''z'' POSITIONAL_OR_KEYWORD (Some (PyInt 2)),
             param ''y'' KEYWORD_ONLY (Some (PyInt 1)), param ''kwargs'' VAR_KEYWORD None])"
    unfolding e' by blast
  from part1 part2 show ?thesis by blast
qed

text \<open>
  C6 as stated fails: \<^verbatim>\<open>f(a, **kwargs)\<close> decorated with
  \<^verbatim>\<open>passes_kws_to(g, keep_from_var_kw=True)\<close> for \<^verbatim>\<open>g(p=1, /)\<close>, which has no
  variadic-keyword parameter. The warning is logged; \<^verbatim>\<open>to_keyword_only\<close> leaves
  \<^verbatim>\<open>p\<close> positional-only, so the constructor is given the positional-only \<^verbatim>\<open>p\<close>
  after the positional-or-keyword \<^verbatim>\<open>a\<close>, raises \<^verbatim>\<open>ValueError\<close>, and no
  decorated callable is produced.
\<close>

theorem keep_with_positional_only_receiver_raises:
  "inspect_signature positional_only_receiver_state 1 =
     Inr (signature_of [param ''p'' POSITIONAL_ONLY (Some (PyInt 1))]) \<and>
   fst (passes_kws_to [1] True 0 positional_only_receiver_state) = Inl ValueError \<and>
   warnings (snd (passes_kws_to [1] True 0 positional_only_receiver_state)) = [1]"
  by (simp add: model_defs positional_only_receiver_state_def)

lemma merge_adds_selected:
  assumes lp: "passes_kws_to_loop [r] keep ps st = (Inr s', st')"
    and rs: "inspect_signature st r = Inr rs"
    and dp: "distinct (map name (parameters ps))" and dr: "distinct (map name (parameters rs))"
    and p: "p \<in> set (parameters rs)" "selected (working_params ps) (name p, p)"
      "keep \<longrightarrow> find_var_kw_key (sig_items ps) \<noteq> Some (name p)"
  shows "to_keyword_only p \<in> set (parameters s')"
proof -
  have "(Some (name p), Some (to_keyword_only p)) \<in> set (new_params_of ps rs keep)"
    using dp dr _ p(3) by (rule new_params_of_merged_mem) (use p(1,2) in blast)
  with loop_single_values [OF lp rs] show ?thesis
    by (blast intro: values_mem)
qed

lemma working_params_entry:
  assumes "distinct (map name (parameters ps))" "(k, q) \<in> set (working_params ps)"
  shows "q \<in> set (parameters ps) \<and> k = name q \<and> find_var_kw_key (sig_items ps) \<noteq> Some k"
  using assms(2) by (auto simp: working_params_distinct [OF assms(1)] sig_items_def)

lemma var_kw_of_entry:
  "var_kw_of key (sig_items ps) = Some q \<Longrightarrow>
     q \<in> set (parameters ps) \<and> key = Some (name q)"
  by (auto simp: var_kw_of_def dict_get_def sig_items_def
      split: option.splits if_splits dest!: map_of_SomeD)

lemma merge_names:
  assumes lp: "passes_kws_to_loop [r] keep ps st = (Inr s', st')"
    and rs: "inspect_signature st r = Inr rs"
    and dp: "distinct (map name (parameters ps))" and dr: "distinct (map name (parameters rs))"
    and q: "q \<in> set (parameters s')"
  shows "(name q \<in> set (map name (parameters ps)) \<and>
            (keep \<or> find_var_kw_key (sig_items ps) \<noteq> Some (name q))) \<or>
         (\<exists>p \<in> set (parameters rs). default_val p \<noteq> None \<and> name p = name q)"
proof -
  let ?wp = "working_params ps"
  let ?tp = "map (\<lambda>kv. (fst kv, to_keyword_only (snd kv))) (filter (selected ?wp) (sig_items rs))"
  let ?merged = "map (\<lambda>kv. (Some (fst kv), Some (snd kv))) (?wp @ ?tp)"
  let ?key = "find_var_kw_key (sig_items ps)"
  have m: "dict_update ?wp (to_params_of ?wp (sig_items rs)) = ?wp @ ?tp"
    using dp dr by (rule merged_distinct)
  have new: "new_params_of ps rs keep =
               (if keep then dict_set ?key (var_kw_of ?key (sig_items ps)) ?merged else ?merged)"
    unfolding new_params_of_def Let_def m dict_of_sig_items [OF dp] by simp
  have "Some q \<in> set (map Some (parameters s'))"
    using q by simp
  then have "Some q \<in> set (dict_values (new_params_of ps rs keep))"
    using loop_single_values [OF lp rs] by simp
  then obtain k where k: "(k, Some q) \<in> set (new_params_of ps rs keep)"
    by (auto simp: dict_values_def)
  have "(k, Some q) \<in> set ?merged \<or> (keep \<and> k = ?key \<and> var_kw_of ?key (sig_items ps) = Some q)"
    using k set_dict_set [of ?key "var_kw_of ?key (sig_items ps)" ?merged]
    by (auto simp: new split: if_splits)
  then show ?thesis
  proof
    assume "(k, Some q) \<in> set ?merged"
    then have "\<exists>n. (n, q) \<in> set (?wp @ ?tp)"
      by (simp only: set_map image_iff) force
    then obtain n where n: "(n, q) \<in> set (?wp @ ?tp)" ..
    then have "(n, q) \<in> set ?wp \<or> (n, q) \<in> set ?tp"
      by (simp only: set_append Un_iff)
    then show ?thesis
    proof
      assume "(n, q) \<in> set ?wp"
      from working_params_entry [OF dp this] show ?thesis
        by auto
    next
      assume "(n, q) \<in> set ?tp"
      then obtain p where "p \<in> set (parameters rs)" "selected ?wp (name p, p)"
        "q = to_keyword_only p"
        by (auto simp: sig_items_def)
      then show ?thesis
        by (auto simp: selected_def)
    qed
  next
    assume "keep \<and> k = ?key \<and> var_kw_of ?key (sig_items ps) = Some q"
    with var_kw_of_entry [of ?key ps q] show ?thesis
      by auto
  qed
qed

text \<open>
  C7, as amended. For receivers \<^verbatim>\<open>A\<close> then \<^verbatim>\<open>B\<close>, with parameter names distinct
  within each signature and no parameter of \<^verbatim>\<open>A\<close> that has a default being
  variadic-keyword, the loop of \<^verbatim>\<open>passes_kws_to\<close> merges \<^verbatim>\<open>A\<close> into the passing
  callable's signature, rebuilds the signature, and merges \<^verbatim>\<open>B\<close> into the rebuilt one;
  the result is what the decorator writes onto the passing callable. When both merges
  succeed:
  \<^item> a parameter of \<^verbatim>\<open>B\<close> with a default whose name is absent from the rebuilt
    signature is in the final signature, reclassified; so is, in particular, one whose
    name is no name of the passing callable and of no parameter of \<^verbatim>\<open>A\<close> with a default;
  \<^item> a parameter of \<^verbatim>\<open>B\<close> is blocked, the final signature holding the earlier parameter
    and no other under its name, when that name is borne in the rebuilt signature by a
    parameter that is not variadic-keyword (by any parameter, with
    \<^verbatim>\<open>keep_from_var_kw\<close>); this is so when the name belongs to a parameter of the
    passing callable that is not variadic-keyword (to any of its parameters, with
    \<^verbatim>\<open>keep_from_var_kw\<close>), and when it belongs to a parameter that \<^verbatim>\<open>A\<close> added
    (one that passed the filter of line 42 and was not overwritten at line 48);
  \<^item> without \<^verbatim>\<open>keep_from_var_kw\<close>, a parameter of \<^verbatim>\<open>B\<close> with a default that has
    the name of the passing callable's variadic-keyword parameter is in the final
    signature, unless \<^verbatim>\<open>A\<close> has a parameter with a default of that name.
\<close>

theorem receivers_merged_in_order:
  assumes "passes_kws_to_loop [A] keep passing_sig st = (Inr sig1, st1)"
    and "passes_kws_to_loop [B] keep sig1 st1 = (Inr final, st2)"
    and "inspect_signature st A = Inr sigA" and "distinct (map name (parameters sigA))"
    and "inspect_signature st1 B = Inr sigB" and "distinct (map name (parameters sigB))"
    and "distinct (map name (parameters passing_sig))"
    and "\<forall>p \<in> set (parameters sigA). default_val p \<noteq> None \<longrightarrow> kind p \<noteq> VAR_KEYWORD"
  shows "passes_kws_to_loop [A, B] keep passing_sig st = (Inr final, st2) \<and>
         (inspect_signature st passing_func = Inr passing_sig \<longrightarrow>
            passes_kws_to [A, B] keep passing_func st =
              (case set_dunder_signature passing_func final st2 of
                 Inl e \<Rightarrow> (Inl e, st2)
               | Inr st3 \<Rightarrow> (Inr passing_func, st3))) \<and>
         distinct (map name (parameters final)) \<and>
         (\<forall>p \<in> set (parameters sigB).
            default_val p \<noteq> None \<and> name p \<notin> set (map name (parameters sig1)) \<longrightarrow>
            to_keyword_only p \<in> set (parameters final)) \<and>
         (\<forall>p \<in> set (parameters sigB).
            default_val p \<noteq> None \<and> name p \<notin> set (map name (parameters passing_sig)) \<and>
            (\<forall>pa \<in> set (parameters sigA). default_val pa \<noteq> None \<longrightarrow> name pa \<noteq> name p) \<longrightarrow>
            to_keyword_only p \<in> set (parameters final)) \<and>
         (\<forall>p \<in> set (parameters sigB). \<forall>q \<in> set (parameters sig1).
            name q = name p \<and> (keep \<or> kind q \<noteq> VAR_KEYWORD) \<longrightarrow>
            q \<in> set (parameters final) \<and>
            (\<forall>p' \<in> set (parameters final). name p' = name p \<longrightarrow> p' = q)) \<and>
         (\<forall>p \<in> set (parameters sigB). \<forall>q \<in> set (parameters passing_sig).
            name q = name p \<and> (keep \<or> kind q \<noteq> VAR_KEYWORD) \<longrightarrow>
            q \<in> set (parameters final) \<and>
            (\<forall>p' \<in> set (parameters final). name p' = name p \<longrightarrow> p' = q)) \<and>
         (\<forall>p \<in> set (parameters sigB). \<forall>pa \<in> set (parameters sigA).
            name pa = name p \<and> selected (working_params passing_sig) (name pa, pa) \<and>
            (keep \<longrightarrow> find_var_kw_key (sig_items passing_sig) \<noteq> Some (name pa)) \<longrightarrow>
            to_keyword_only pa \<in> set (parameters final) \<and>
            (\<forall>p' \<in> set (parameters final). name p' = name p \<longrightarrow> p' = to_keyword_only pa)) \<and>
         (\<forall>p \<in> set (parameters sigB).
            \<not> keep \<and> default_val p \<noteq> None \<and>
            find_var_kw_key (sig_items passing_sig) = Some (name p) \<and>
            (\<forall>pa \<in> set (parameters sigA). default_val pa \<noteq> None \<longrightarrow> name pa \<noteq> name p) \<longrightarrow>
            to_keyword_only p \<in> set (parameters final))"
proof -
  have d1: "distinct (map name (parameters sig1))"
    using loop_single_values [OF assms(1,3)] by simp
  have df: "distinct (map name (parameters final))"
    using loop_single_values [OF assms(2,5)] by simp
  have order: "passes_kws_to_loop [A, B] keep passing_sig st = (Inr final, st2)"
    using passes_kws_to_loop_append [of "[A]" "[B]" keep passing_sig st] assms(1,2) by simp
  have deco: "inspect_signature st passing_func = Inr passing_sig \<longrightarrow>
            passes_kws_to [A, B] keep passing_func st =
              (case set_dunder_signature passing_func final st2 of
                 Inl e \<Rightarrow> (Inl e, st2)
               | Inr st3 \<Rightarrow> (Inr passing_func, st3))"
  proof
    assume ps: "inspect_signature st passing_func = Inr passing_sig"
    have "passes_kws_to [A, B] keep passing_func st =
            passes_kws_to_func [A, B] keep passing_func st"
      by (simp add: passes_kws_to_def)
    also have "\<dots> = (case set_dunder_signature passing_func final st2 of
                 Inl e \<Rightarrow> (Inl e, st2)
               | Inr st3 \<Rightarrow> (Inr passing_func, st3))"
      by (simp only: passes_kws_to_func_unfold [OF ps order] sum.case)
    finally show "passes_kws_to [A, B] keep passing_func st =
              (case set_dunder_signature passing_func final st2 of
                 Inl e \<Rightarrow> (Inl e, st2)
               | Inr st3 \<Rightarrow> (Inr passing_func, st3))" .
  qed
  have incl: "to_keyword_only p \<in> set (parameters final)"
    if "p \<in> set (parameters sigB)" "default_val p \<noteq> None"
       "name p \<notin> set (map name (parameters sig1))" for p
    using merge_adds [OF assms(2,5) d1 assms(6) that] .
  have blocked: "q \<in> set (parameters final) \<and>
            (\<forall>p' \<in> set (parameters final). name p' = n \<longrightarrow> p' = q)"
    if q: "q \<in> set (parameters sig1)" and h: "name q = n" "keep \<or> kind q \<noteq> VAR_KEYWORD"
    for q n
  proof -
    have qf: "q \<in> set (parameters final)"
      using merge_keeps [OF assms(2,5) d1 assms(6) q h(2)] .
    have "p' = q" if "p' \<in> set (parameters final)" "name p' = n" for p'
      using distinct_names_unique [OF df qf that(1)] that(2) h(1) by simp
    with qf show ?thesis by blast
  qed
  have absent: "name p \<notin> set (map name (parameters sig1))"
    if na: "\<forall>pa \<in> set (parameters sigA). default_val pa \<noteq> None \<longrightarrow> name pa \<noteq> name p"
      and np: "name p \<notin> set (map name (parameters passing_sig)) \<or>
               (\<not> keep \<and> find_var_kw_key (sig_items passing_sig) = Some (name p))" for p
  proof
    assume "name p \<in> set (map name (parameters sig1))"
    then obtain q where q: "q \<in> set (parameters sig1)" "name q = name p"
      by auto
    from merge_names [OF assms(1,3,7,4) q(1)] q(2) na np show False
      by auto
  qed
  have c4: "\<forall>p \<in> set (parameters sigB).
            default_val p \<noteq> None \<and> name p \<notin> set (map name (parameters sig1)) \<longrightarrow>
            to_keyword_only p \<in> set (parameters final)"
    using incl by blast
  have c5: "\<forall>p \<in> set (parameters sigB).
            default_val p \<noteq> None \<and> name p \<notin> set (map name (parameters passing_sig)) \<and>
            (\<forall>pa \<in> set (parameters sigA). default_val pa \<noteq> None \<longrightarrow> name pa \<noteq> name p) \<longrightarrow>
            to_keyword_only p \<in> set (parameters final)"
    using incl absent by blast
  have c6: "\<forall>p \<in> set (parameters sigB). \<forall>q \<in> set (parameters sig1).
            name q = name p \<and> (keep \<or> kind q \<noteq> VAR_KEYWORD) \<longrightarrow>
            q \<in> set (parameters final) \<and>
            (\<forall>p' \<in> set (parameters final). name p' = name p \<longrightarrow> p' = q)"
    using blocked by blast
  have c7: "\<forall>p \<in> set (parameters sigB). \<forall>q \<in> set (parameters passing_sig).
            name q = name p \<and> (keep \<or> kind q \<noteq> VAR_KEYWORD) \<longrightarrow>
            q \<in> set (parameters final) \<and>
            (\<forall>p' \<in> set (parameters final). name p' = name p \<longrightarrow> p' = q)"
  proof (intro ballI impI)
    fix p q
    assume q: "q \<in> set (parameters passing_sig)"
      and h: "name q = name p \<and> (keep \<or> kind q \<noteq> VAR_KEYWORD)"
    from h have k: "keep \<or> kind q \<noteq> VAR_KEYWORD" by blast
    have "q \<in> set (parameters sig1)"
      using merge_keeps [OF assms(1,3,7,4) q k] .
    from blocked [OF this _ k, of "name p"] h
    show "q \<in> set (parameters final) \<and>
            (\<forall>p' \<in> set (parameters final). name p' = name p \<longrightarrow> p' = q)"
      by blast
  qed
  have c8: "\<forall>p \<in> set (parameters sigB). \<forall>pa \<in> set (parameters sigA).
            name pa = name p \<and> selected (working_params passing_sig) (name pa, pa) \<and>
            (keep \<longrightarrow> find_var_kw_key (sig_items passing_sig) \<noteq> Some (name pa)) \<longrightarrow>
            to_keyword_only pa \<in> set (parameters final) \<and>
            (\<forall>p' \<in> set (parameters final). name p' = name p \<longrightarrow> p' = to_keyword_only pa)"
  proof (intro ballI impI)
    fix p pa
    assume pa: "pa \<in> set (parameters sigA)"
      and h: "name pa = name p \<and> selected (working_params passing_sig) (name pa, pa) \<and>
            (keep \<longrightarrow> find_var_kw_key (sig_items passing_sig) \<noteq> Some (name pa))"
    from h have sel: "selected (working_params passing_sig) (name pa, pa)"
      and key: "keep \<longrightarrow> find_var_kw_key (sig_items passing_sig) \<noteq> Some (name pa)"
      by blast+
    have in1: "to_keyword_only pa \<in> set (parameters sig1)"
      using merge_adds_selected [OF assms(1,3,7,4) pa sel key] .
    from sel have "default_val pa \<noteq> None"
      by (simp add: selected_def)
    with assms(8) pa have "kind pa \<noteq> VAR_KEYWORD" by blast
    then have k: "keep \<or> kind (to_keyword_only pa) \<noteq> VAR_KEYWORD"
      by simp
    from blocked [OF in1 _ k, of "name p"] h
    show "to_keyword_only pa \<in> set (parameters final) \<and>
            (\<forall>p' \<in> set (parameters final). name p' = name p \<longrightarrow> p' = to_keyword_only pa)"
      by simp
  qed
  have c9: "\<forall>p \<in> set (parameters sigB).
            \<not> keep \<and> default_val p \<noteq> None \<and>
            find_var_kw_key (sig_items passing_sig) = Some (name p) \<and>
            (\<forall>pa \<in> set (parameters sigA). default_val pa \<noteq> None \<longrightarrow> name pa \<noteq> name p) \<longrightarrow>
            to_keyword_only p \<in> set (parameters final)"
    using incl absent by blast
  from order deco df c4 c5 c6 c7 c8 c9 show ?thesis by blast
qed

theorem receivers_merged_in_order_witness:
  "passes_kws_to_loop [1, 2] False
     (signature_of [param ''a'' POSITIONAL_OR_KEYWORD None, param ''b'' VAR_KEYWORD None])
     two_receivers_state =
     (Inr (signature_of
             [param ''a'' POSITIONAL_OR_KEYWORD None, param ''c'' KEYWORD_ONLY (Some (PyInt 1)),
              param ''b'' KEYWORD_ONLY (Some (PyInt 2)), param ''d'' KEYWORD_ONLY (Some (PyInt 4))]),
      two_receivers_state) \<and>
   to_keyword_only (param ''d'' POSITIONAL_OR_KEYWORD (Some (PyInt 4))) \<in>
     set (parameters (signature_of
             [param ''a'' POSITIONAL_OR_KEYWORD None, param ''c'' KEYWORD_ONLY (Some (PyInt 1)),
              param ''b'' KEYWORD_ONLY (Some (PyInt 2)), param ''d'' KEYWORD_ONLY (Some (PyInt 4))])) \<and>
   to_keyword_only (param ''c'' POSITIONAL_OR_KEYWORD (Some (PyInt 1))) \<in>
     set (parameters (signature_of
             [param ''a'' POSITIONAL_OR_KEYWORD None, param ''c'' KEYWORD_ONLY (Some (PyInt 1)),
              param ''b'' KEYWORD_ONLY (Some (PyInt 2)), param ''d'' KEYWORD_ONLY (Some (PyInt 4))])) \<and>
   to_keyword_only (param ''b'' POSITIONAL_OR_KEYWORD (Some (PyInt 2))) \<in>
     set (parameters (signature_of
             [param ''a'' POSITIONAL_OR_KEYWORD None, param ''c'' KEYWORD_ONLY (Some (PyInt 1)),
              param ''b'' KEYWORD_ONLY (Some (PyInt 2)), param ''d'' KEYWORD_ONLY (Some (PyInt 4))]))"
proof -
  let ?ps = "signature_of [param ''a'' POSITIONAL_OR_KEYWORD None, param ''b'' VAR_KEYWORD None]"
  let ?sig1 = "signature_of
             [param ''a'' POSITIONAL_OR_KEYWORD None, param ''c'' KEYWORD_ONLY (Some (PyInt 1))]"
  let ?final = "signature_of
             [param ''a'' POSITIONAL_OR_KEYWORD None, param ''c'' KEYWORD_ONLY (Some (PyInt 1)),
              param ''b'' KEYWORD_ONLY (Some (PyInt 2)), param ''d'' KEYWORD_ONLY (Some (PyInt 4))]"
  let ?sigA = "signature_of [param ''c'' POSITIONAL_OR_KEYWORD (Some (PyInt 1))]"
  let ?sigB = "signature_of [param ''b'' POSITIONAL_OR_KEYWORD (Some (PyInt 2)),
                     param ''c'' POSITIONAL_OR_KEYWORD (Some (PyInt 3)),
                     param ''d'' POSITIONAL_OR_KEYWORD (Some (PyInt 4))]"
  let ?b = "param ''b'' POSITIONAL_OR_KEYWORD (Some (PyInt 2))"
  let ?c = "param ''c'' POSITIONAL_OR_KEYWORD (Some (PyInt 1))"
  let ?c' = "param ''c'' POSITIONAL_OR_KEYWORD (Some (PyInt 3))"
  let ?d = "param ''d'' POSITIONAL_OR_KEYWORD (Some (PyInt 4))"
  have h1: "passes_kws_to_loop [1] False ?ps two_receivers_state = (Inr ?sig1, two_receivers_state)"
    by (simp add: model_defs two_receivers_state_def)
  have h2: "passes_kws_to_loop [2] False ?sig1 two_receivers_state = (Inr ?final, two_receivers_state)"
    by (simp add: model_defs two_receivers_state_def)
  have h3: "inspect_signature two_receivers_state 1 = Inr ?sigA"
    by (simp add: model_defs two_receivers_state_def)
  have h4: "distinct (map name (parameters ?sigA))"
    by (simp add: signature_of_def param_def)
  have h5: "inspect_signature two_receivers_state 2 = Inr ?sigB"
    by (simp add: model_defs two_receivers_state_def)
  have h6: "distinct (map name (parameters ?sigB))"
    by (simp add: signature_of_def param_def)
  have h7: "distinct (map name (parameters ?ps))"
    by (simp add: signature_of_def param_def)
  have h8: "\<forall>p \<in> set (parameters ?sigA). default_val p \<noteq> None \<longrightarrow> kind p \<noteq> VAR_KEYWORD"
    by (simp add: signature_of_def param_def)
  note t = receivers_merged_in_order [OF h1 h2 h3 h4 h5 h6 h7 h8]
  have mB: "?b \<in> set (parameters ?sigB)" "?c' \<in> set (parameters ?sigB)"
    "?d \<in> set (parameters ?sigB)"
    by (simp_all add: signature_of_def)
  have mA: "?c \<in> set (parameters ?sigA)"
    by (simp add: signature_of_def)
  have c1: "passes_kws_to_loop [1, 2] False ?ps two_receivers_state = (Inr ?final, two_receivers_state)"
    using t by blast
  have d_new: "default_val ?d \<noteq> None \<and> name ?d \<notin> set (map name (parameters ?ps)) \<and>
            (\<forall>pa \<in> set (parameters ?sigA). default_val pa \<noteq> None \<longrightarrow> name pa \<noteq> name ?d)"
    by (simp add: signature_of_def param_def)
  have c2: "to_keyword_only ?d \<in> set (parameters ?final)"
    using t mB(3) d_new by blast
  have c_added: "name ?c = name ?c' \<and> selected (working_params ?ps) (name ?c, ?c) \<and>
            (False \<longrightarrow> find_var_kw_key (sig_items ?ps) \<noteq> Some (name ?c))"
    by (simp add: model_defs working_params_def)
  have c3: "to_keyword_only ?c \<in> set (parameters ?final)"
    using t mB(2) mA c_added by blast
  have b_free: "\<not> False \<and> default_val ?b \<noteq> None \<and>
            find_var_kw_key (sig_items ?ps) = Some (name ?b) \<and>
            (\<forall>pa \<in> set (parameters ?sigA). default_val pa \<noteq> None \<longrightarrow> name pa \<noteq> name ?b)"
    by (simp add: model_defs)
  have c4: "to_keyword_only ?b \<in> set (parameters ?final)"
    using t mB(1) b_free by blast
  from c1 c2 c3 c4 show ?thesis by blast
qed

text \<open>
  C7 as stated fails: \<^verbatim>\<open>f(a, **b)\<close> decorated with \<^verbatim>\<open>passes_kws_to(h, g)\<close> for
  \<^verbatim>\<open>h(c=1)\<close> and \<^verbatim>\<open>g(b=2, c=3, d=4)\<close>. The name \<^verbatim>\<open>b\<close> was in the passing
  callable, yet the parameter \<^verbatim>\<open>b=2\<close> of \<^verbatim>\<open>g\<close> is in the final signature
  \<^verbatim>\<open>(a, *, c=1, b=2, d=4)\<close>.
\<close>

theorem var_kw_name_does_not_block:
  "inspect_signature two_receivers_state 0 =
     Inr (signature_of [param ''a'' POSITIONAL_OR_KEYWORD None, param ''b'' VAR_KEYWORD None]) \<and>
   fst (passes_kws_to [1, 2] False 0 two_receivers_state) = Inr 0 \<and>
   inspect_signature (snd (passes_kws_to [1, 2] False 0 two_receivers_state)) 0 =
     Inr (signature_of
            [param ''a'' POSITIONAL_OR_KEYWORD None, param ''c'' KEYWORD_ONLY (Some (PyInt 1)),
             param ''b'' KEYWORD_ONLY (Some (PyInt 2)), param ''d'' KEYWORD_ONLY (Some (PyInt 4))])"
  by (simp add: model_defs two_receivers_state_def)

end
